theory Spec2Isabelle
  imports Complex_Main "HOL-Library.Log_Nat" "HOL-Library.Sublist"
begin

section \<open>Python strings\<close>

text \<open>
  Strings are lists of characters, and a character is a code point from 0 to 255; text
  with code points above 255 is outside the model. On these code points the string
  methods are those of Python's \<^verbatim>\<open>str\<close>: the whitespace of \<^verbatim>\<open>split()\<close> and \<^verbatim>\<open>strip()\<close>
  is 9 to 13, 28 to 32, 133 and 160, and \<^verbatim>\<open>lower()\<close> adds 32 to the code points 65 to 90
  (A..Z) and 192 to 222 without 215, and leaves every other character alone.
\<close>

definition isspace :: "char \<Rightarrow> bool" where
  "isspace c =
     (let n = (of_char c :: nat)
      in (9 \<le> n \<and> n \<le> 13) \<or> (28 \<le> n \<and> n \<le> 32) \<or> n = 133 \<or> n = 160)"

definition lower_char :: "char \<Rightarrow> char" where
  "lower_char c =
     (case map_of (zip ''ABCDEFGHIJKLMNOPQRSTUVWXYZ'' ''abcdefghijklmnopqrstuvwxyz'') c of
        Some d \<Rightarrow> d
      | None \<Rightarrow>
          (let n = (of_char c :: nat)
           in if 192 \<le> n \<and> n \<le> 222 \<and> n \<noteq> 215 then char_of (n + 32) else c))"

definition str_lower :: "string \<Rightarrow> string" where
  "str_lower s = map lower_char s"

text \<open>\<^verbatim>\<open>s.count(sub)\<close>: the number of non-overlapping occurrences, scanning from the left.\<close>

function str_count :: "string \<Rightarrow> string \<Rightarrow> nat" where
  "str_count s sub =
     (if sub = [] then length s + 1
      else if length s < length sub then 0
      else if prefix sub s then 1 + str_count (drop (length sub) s) sub
      else str_count (tl s) sub)"
  by pat_completeness auto
termination
  by (relation "measure (\<lambda>(s, sub). length s)") (auto simp: neq_Nil_conv)

declare str_count.simps [simp del]

text \<open>\<^verbatim>\<open>sub in s\<close>.\<close>

fun str_contains :: "string \<Rightarrow> string \<Rightarrow> bool" where
  "str_contains [] sub = (sub = [])"
| "str_contains (c # cs) sub = (prefix sub (c # cs) \<or> str_contains cs sub)"

text \<open>
  \<^verbatim>\<open>s.split()\<close>: the maximal runs of non-whitespace characters; \<open>cur\<close> is the run
  being read.
\<close>

fun split_ws_from :: "string \<Rightarrow> string \<Rightarrow> string list" where
  "split_ws_from cur [] = (if cur = [] then [] else [cur])"
| "split_ws_from cur (c # cs) =
     (if isspace c then (if cur = [] then split_ws_from [] cs else cur # split_ws_from [] cs)
      else split_ws_from (cur @ [c]) cs)"

definition str_split_ws :: "string \<Rightarrow> string list" where
  "str_split_ws s = split_ws_from [] s"

text \<open>\<^verbatim>\<open>s.split(d)\<close> for a one-character separator.\<close>

fun str_split :: "char \<Rightarrow> string \<Rightarrow> string list" where
  "str_split d [] = [[]]"
| "str_split d (c # cs) =
     (if c = d then [] # str_split d cs
      else (case str_split d cs of
              [] \<Rightarrow> [[c]]
            | w # ws \<Rightarrow> (c # w) # ws))"

text \<open>\<^verbatim>\<open>sep.join(xs)\<close>.\<close>

fun str_join :: "string \<Rightarrow> string list \<Rightarrow> string" where
  "str_join sep [] = []"
| "str_join sep [x] = x"
| "str_join sep (x # y # ys) = x @ sep @ str_join sep (y # ys)"

text \<open>\<^verbatim>\<open>s.strip()\<close>.\<close>

definition str_strip :: "string \<Rightarrow> string" where
  "str_strip s = rev (dropWhile isspace (rev (dropWhile isspace s)))"

text \<open>\<^verbatim>\<open>str(n)\<close> for a non-negative integer.\<close>

definition digit_char :: "nat \<Rightarrow> char" where
  "digit_char d = ''0123456789'' ! d"

function str_of_nat :: "nat \<Rightarrow> string" where
  "str_of_nat n = (if n < 10 then [digit_char n] else str_of_nat (n div 10) @ [digit_char (n mod 10)])"
  by pat_completeness auto
termination
  by (relation "measure id") auto

declare str_of_nat.simps [simp del]

text \<open>\<^verbatim>\<open>sum(text.count(term) for term in terms)\<close>.\<close>

definition term_count :: "string \<Rightarrow> string list \<Rightarrow> nat" where
  "term_count text terms = sum_list (map (str_count text) terms)"

text \<open>\<^verbatim>\<open>d.get(k, default)\<close> on a dictionary with string keys and string values.\<close>

type_synonym dict = "(string \<times> string) list"

definition dict_get :: "dict \<Rightarrow> string \<Rightarrow> string \<Rightarrow> string" where
  "dict_get d k dflt = (case map_of d k of None \<Rightarrow> dflt | Some v \<Rightarrow> v)"


section \<open>Python floats\<close>

text \<open>
  A float is the rational number it denotes. Every arithmetic operation computes the exact
  result and rounds it to the nearest binary64 number, ties to even (\<open>fl\<close>); the exponent
  range is taken as unbounded, so overflow, subnormal numbers, infinities and NaN are
  outside the model. A decimal literal such as \<^verbatim>\<open>0.8\<close> is \<open>fl (8/10)\<close>.
\<close>

definition round_half_even :: "rat \<Rightarrow> int" where
  "round_half_even x =
     (let n = \<lfloor>x\<rfloor>; d = x - of_int n
      in if d < 1/2 then n else if 1/2 < d then n + 1 else if even n then n else n + 1)"

text \<open>The exponent \<open>e\<close> with \<open>2^e \<le> |x| < 2^(e+1)\<close>, for \<open>x \<noteq> 0\<close>.\<close>

definition binade :: "rat \<Rightarrow> int" where
  "binade x =
     (let (p, q) = quotient_of x; k = bitlen \<bar>p\<bar> - bitlen q
      in if 2 powi k \<le> \<bar>x\<bar> then k else k - 1)"

definition fl :: "rat \<Rightarrow> rat" where
  "fl x = (if x = 0 then 0
           else let u = 2 powi (binade x - 52) in of_int (round_half_even (x / u)) * u)"

definition fadd :: "rat \<Rightarrow> rat \<Rightarrow> rat" where
  "fadd a b = fl (a + b)"

definition fsub :: "rat \<Rightarrow> rat \<Rightarrow> rat" where
  "fsub a b = fl (a - b)"

definition fmul :: "rat \<Rightarrow> rat \<Rightarrow> rat" where
  "fmul a b = fl (a * b)"

definition fdiv :: "rat \<Rightarrow> rat \<Rightarrow> rat" where
  "fdiv a b = fl (a / b)"

text \<open>\<^verbatim>\<open>a / b\<close> on two integers: true division, correctly rounded.\<close>

definition int_truediv :: "nat \<Rightarrow> nat \<Rightarrow> rat" where
  "int_truediv a b = fl (of_nat a / of_nat b)"


section \<open>Persona inference and weights\<close>

datatype persona = Leadership | Technical | General

definition leadership_terms :: "string list" where
  "leadership_terms =
     [''ciso'', ''leader'', ''leadership'', ''executive'', ''manager'', ''governance'',
      ''strategy'', ''compliance'', ''policy'', ''risk'', ''identity'', ''security'',
      ''authentication'', ''authorization'']"

definition technical_terms :: "string list" where
  "technical_terms =
     [''engineer'', ''developer'', ''implementation'', ''api'', ''code'', ''technical'',
      ''tool'', ''sdk'', ''programming'', ''configuration'', ''mcp'', ''bedrock'', ''cognito'']"

definition leadership_conf :: "string \<Rightarrow> rat" where
  "leadership_conf query_lower =
     int_truediv (term_count query_lower leadership_terms)
                 (max 1 (length (str_split_ws query_lower)))"

definition technical_conf :: "string \<Rightarrow> rat" where
  "technical_conf query_lower =
     int_truediv (term_count query_lower technical_terms)
                 (max 1 (length (str_split_ws query_lower)))"

definition infer_persona :: "string \<Rightarrow> persona" where
  "infer_persona query =
     (let query_lower = str_lower query
      in if leadership_conf query_lower > technical_conf query_lower then Leadership
         else if technical_conf query_lower > leadership_conf query_lower then Technical
         else General)"

definition semantic_weight :: "persona \<Rightarrow> rat" where
  "semantic_weight p =
     (if p = Leadership then fl (8/10) else if p = Technical then fl (6/10) else fl (7/10))"

definition keyword_weight :: "persona \<Rightarrow> rat" where
  "keyword_weight p = fsub (fsub 1 (semantic_weight p)) (fl (5/100))"

definition metadata_weight :: rat where
  "metadata_weight = fl (5/100)"


section \<open>Summary truncation\<close>

text \<open>
  \<^verbatim>\<open>sentences = summary.split('.')\<close>,
  \<^verbatim>\<open>summary = '. '.join(sentences[:2]).strip() + ('.' if sentences else '')\<close>.
\<close>

definition truncate_summary :: "string \<Rightarrow> string" where
  "truncate_summary summary =
     (let sentences = str_split (CHR ''.'') summary
      in str_strip (str_join ''. '' (take 2 sentences)) @ (if sentences \<noteq> [] then ''.'' else ''''))"

text \<open>
  The truncation as the specification words it: the first two segments of the split on
  the period, joined back with the period, and a trailing period if there were segments.
\<close>

definition spec_truncate_summary :: "string \<Rightarrow> string" where
  "spec_truncate_summary summary =
     (let segments = str_split (CHR ''.'') summary
      in str_join ''.'' (take 2 segments) @ (if segments \<noteq> [] then ''.'' else ''''))"

section \<open>Data of one request\<close>

text \<open>
  One element of \<^verbatim>\<open>vector_response['vectors']\<close>; each of its three keys may be absent.
  Metadata values are strings.
\<close>

record raw_vector =
  v_key :: "string option"
  v_distance :: "rat option"
  v_metadata :: "dict option"

text \<open>The dictionary appended to \<^verbatim>\<open>candidates\<close> by the scoring loop.\<close>

record candidate =
  doc_id :: string
  content :: string
  metadata :: dict
  summary :: string
  semantic_score :: rat
  keyword_score :: rat
  metadata_score :: rat
  matched_terms :: "string list"

text \<open>The same dictionary once the blending loop has stored \<^verbatim>\<open>hybrid_score\<close> in it.\<close>

record scored_candidate = candidate +
  hybrid_score :: rat

text \<open>
  An entry of \<^verbatim>\<open>valid_results\<close> (with its summary) or of the \<^verbatim>\<open>results\<close> of a success
  envelope (the summary key is dropped there).
\<close>

record result_entry =
  e_doc_id :: string
  e_links :: dict
  e_hybrid_score :: rat
  e_summary :: "string option"

text \<open>
  The dictionary under \<^verbatim>\<open>"output"\<close> in the value returned by the tool; a key that is
  not set is \<open>None\<close>.
\<close>

record envelope =
  message :: "string option"
  results :: "result_entry list option"
  final_recommendation :: "string option"

datatype exn = ClientError string | KeyError string | OtherException string

text \<open>\<^verbatim>\<open>str(e)\<close>.\<close>

definition str_of_exn :: "exn \<Rightarrow> string" where
  "str_of_exn e =
     (case e of
        ClientError m \<Rightarrow> m
      | KeyError k \<Rightarrow> [CHR 0x27] @ k @ [CHR 0x27]
      | OtherException m \<Rightarrow> m)"


section \<open>Hybrid scoring\<close>

definition synonyms :: "(string \<times> string list) list" where
  "synonyms =
     [(''ciso'', [''chief information security officer'', ''security officer'']),
      (''ai'', [''artificial intelligence'', ''machine learning'']),
      (''security'', [''cybersecurity'', ''protection'', ''secure'']),
      (''agentic'', [''agent'', ''autonomous'', ''intelligent'']),
      (''leader'', [''executive'', ''manager'', ''director'']),
      (''engineer'', [''developer'', ''programmer'', ''technical''])]"

definition all_keywords :: "string \<Rightarrow> string list" where
  "all_keywords query_lower =
     (let keywords = filter (\<lambda>kw. 2 \<le> length kw) (str_split_ws query_lower)
      in keywords @
         concat (map (\<lambda>kw. case map_of synonyms kw of None \<Rightarrow> [] | Some syns \<Rightarrow> syns) keywords))"

text \<open>
  The body of the loop over \<^verbatim>\<open>vector_response['vectors']\<close>. The only statement of the
  body that can raise on well-typed data is \<^verbatim>\<open>result['key']\<close>.
\<close>

text \<open>\<^verbatim>\<open>result.get('metadata', {})\<close>.\<close>

definition get_metadata :: "raw_vector \<Rightarrow> dict" where
  "get_metadata result = (case v_metadata result of None \<Rightarrow> [] | Some m \<Rightarrow> m)"

definition build_candidate :: "persona \<Rightarrow> string list \<Rightarrow> raw_vector \<Rightarrow> exn + candidate" where
  "build_candidate persona kws result =
     (let md = get_metadata result;
          content = dict_get md ''source_text'' [];
          content_lower = str_lower content;
          sem_score = fsub 1 (case v_distance result of None \<Rightarrow> 1 | Some d \<Rightarrow> d);
          kw_score = int_truediv (sum_list (map (str_count content_lower) kws))
                                 (max 1 (length (str_split_ws content_lower)));
          summary = truncate_summary (dict_get md ''Video Transcript Summary'' ''No summary available.'');
          topics = str_lower (dict_get md ''When Was Each Topic Discussed'' []);
          combined_text = content_lower @ '' '' @ str_lower summary @ '' '' @ topics;
          persona_terms = (if persona = Leadership then leadership_terms
                           else if persona = Technical then technical_terms else []);
          metadata_score = (if persona = Leadership \<or> persona = Technical
                            then int_truediv (term_count combined_text persona_terms)
                                             (max 1 (length (str_split_ws combined_text)))
                            else 0);
          matched_terms = filter (str_contains combined_text) persona_terms
      in case v_key result of
           None \<Rightarrow> Inl (KeyError ''key'')
         | Some k \<Rightarrow>
             Inr \<lparr>doc_id = k, content = content, metadata = md, summary = summary,
                  semantic_score = sem_score, keyword_score = kw_score,
                  metadata_score = metadata_score, matched_terms = matched_terms\<rparr>)"

fun build_candidates :: "persona \<Rightarrow> string list \<Rightarrow> raw_vector list \<Rightarrow> exn + candidate list" where
  "build_candidates persona kws [] = Inr []"
| "build_candidates persona kws (result # rest) =
     (case build_candidate persona kws result of
        Inl e \<Rightarrow> Inl e
      | Inr c \<Rightarrow>
          (case build_candidates persona kws rest of
             Inl e \<Rightarrow> Inl e
           | Inr cs \<Rightarrow> Inr (c # cs)))"

text \<open>\<^verbatim>\<open>max(xs, default=0.0)\<close>.\<close>

fun max_default :: "rat list \<Rightarrow> rat" where
  "max_default [] = 0"
| "max_default [x] = x"
| "max_default (x # y # ys) = max x (max_default (y # ys))"

text \<open>\<^verbatim>\<open>(score / m) if m > 0 else 0.0\<close>.\<close>

definition normalize :: "rat \<Rightarrow> rat \<Rightarrow> rat" where
  "normalize m score = (if 0 < m then fdiv score m else 0)"

definition norm_kw :: "candidate list \<Rightarrow> candidate \<Rightarrow> rat" where
  "norm_kw candidates c = normalize (max_default (map keyword_score candidates)) (keyword_score c)"

definition norm_meta :: "candidate list \<Rightarrow> candidate \<Rightarrow> rat" where
  "norm_meta candidates c = normalize (max_default (map metadata_score candidates)) (metadata_score c)"

definition with_hybrid_score :: "candidate \<Rightarrow> rat \<Rightarrow> scored_candidate" where
  "with_hybrid_score c h =
     \<lparr>doc_id = doc_id c, content = content c, metadata = metadata c, summary = summary c,
      semantic_score = semantic_score c, keyword_score = keyword_score c,
      metadata_score = metadata_score c, matched_terms = matched_terms c, hybrid_score = h\<rparr>"

definition blend :: "persona \<Rightarrow> candidate list \<Rightarrow> scored_candidate list" where
  "blend persona candidates =
     map (\<lambda>c. with_hybrid_score c
                (fadd (fadd (fmul (semantic_weight persona) (semantic_score c))
                            (fmul (keyword_weight persona) (norm_kw candidates c)))
                      (fmul metadata_weight (norm_meta candidates c))))
         candidates"


section \<open>Clustering for diversity\<close>

text \<open>
  \<^verbatim>\<open>xs.sort(key=lambda x: x['hybrid_score'], reverse=True)\<close>: a stable sort, so candidates
  of equal score keep their order.
\<close>

definition sort_by_hybrid_desc :: "scored_candidate list \<Rightarrow> scored_candidate list" where
  "sort_by_hybrid_desc cs = sort_key (\<lambda>c. - hybrid_score c) cs"

definition leans_leadership :: "scored_candidate \<Rightarrow> bool" where
  "leans_leadership c =
     (term_count (str_lower (content c)) technical_terms
        \<le> term_count (str_lower (content c)) leadership_terms)"

definition cluster :: "persona \<Rightarrow> scored_candidate list \<Rightarrow> scored_candidate list" where
  "cluster persona candidates =
     (let leadership_candidates = filter leans_leadership candidates;
          technical_candidates = filter (\<lambda>c. c \<notin> set leadership_candidates) candidates
      in if persona = Leadership \<and> leadership_candidates \<noteq> [] then
           (let top_docs = take 2 (sort_by_hybrid_desc leadership_candidates)
            in if length top_docs < 2 \<and> technical_candidates \<noteq> []
               then top_docs @ [hd (sort_by_hybrid_desc technical_candidates)]
               else top_docs)
         else take 5 (sort_by_hybrid_desc candidates))"


section \<open>Link filter\<close>

definition link_fields :: "(string \<times> string) list" where
  "link_fields =
     [(''external_youtube_link'', ''External Youtube Link''),
      (''content_link'', ''Content Link''),
      (''deck_link'', ''Deck Link''),
      (''internal_broadcast_link'', ''Internal Broadcast Video Link'')]"

text \<open>\<^verbatim>\<open>value and value.lower() not in ["not available", ""]\<close>.\<close>

definition usable :: "string \<Rightarrow> bool" where
  "usable v = (v \<noteq> [] \<and> str_lower v \<notin> set [''not available'', []])"

definition extract_links :: "dict \<Rightarrow> dict" where
  "extract_links md =
     concat (map (\<lambda>(k, field). let v = dict_get md field [] in if usable v then [(k, v)] else [])
                 link_fields)"

fun collect_valid :: "scored_candidate list \<Rightarrow> result_entry list" where
  "collect_valid [] = []"
| "collect_valid (doc # docs) =
     (let links = extract_links (metadata doc)
      in if links \<noteq> []
         then \<lparr>e_doc_id = doc_id doc, e_links = links, e_hybrid_score = hybrid_score doc,
               e_summary = Some (summary doc)\<rparr> # collect_valid docs
         else collect_valid docs)"

text \<open>
  Scoring, clustering and link filtering of one vector response. The source has this
  sequence twice, word for word: after the first query and after the retried one.
\<close>

definition score_cluster_filter ::
  "persona \<Rightarrow> string list \<Rightarrow> raw_vector list \<Rightarrow> exn + result_entry list" where
  "score_cluster_filter persona kws vectors =
     (case build_candidates persona kws vectors of
        Inl e \<Rightarrow> Inl e
      | Inr candidates \<Rightarrow> Inr (collect_valid (cluster persona (blend persona candidates))))"


section \<open>Output\<close>

definition insufficient_text :: string where
  "insufficient_text = ''Insufficient relevant videos found to provide a recommendation.''"

definition recommendation_text :: "result_entry list \<Rightarrow> string" where
  "recommendation_text filtered_results =
     (if filtered_results = [] then ''No relevant results found.''
      else
        (let first = filtered_results ! 0; second = filtered_results ! 1;
             recommendation_level = (if fl (5/10) < e_hybrid_score first
                                     then ''Highly recommended'' else ''Moderately relevant'');
             top_summary = (case e_summary first of None \<Rightarrow> ''No summary available.'' | Some s \<Rightarrow> s);
             second_summary = (case e_summary second of None \<Rightarrow> ''No summary available.'' | Some s \<Rightarrow> s)
         in recommendation_level @ '': Relevant for agentic AI security.'' @ [CHR 0x0A] @
            ''- Video 1 ('' @ e_doc_id first @ ''): '' @ top_summary @ [CHR 0x0A] @
            ''- Video 2 ('' @ e_doc_id second @ ''): '' @ second_summary @ [CHR 0x0A] @
            ''Start with Video 1 for its focus on AI agent security.''))"

text \<open>
  Steps 8 and 9 of the source. \<^verbatim>\<open>filtered_results[1]\<close> is read only when
  \<^verbatim>\<open>valid_results\<close> has two entries or more.
\<close>

definition prepare_output :: "result_entry list \<Rightarrow> envelope" where
  "prepare_output valid_results =
     (if length valid_results < 2 then
        \<lparr>message = Some (''ERROR: Found only '' @ str_of_nat (length valid_results) @
                          '' video(s) with valid links; at least 2 required''),
         results = Some valid_results,
         final_recommendation = Some insufficient_text\<rparr>
      else
        (let filtered_results = take 2 valid_results
         in \<lparr>message = None,
             results = Some (map (\<lambda>r. \<lparr>e_doc_id = e_doc_id r, e_links = e_links r,
                                        e_hybrid_score = e_hybrid_score r, e_summary = None\<rparr>)
                                 filtered_results),
             final_recommendation = Some (recommendation_text filtered_results)\<rparr>))"

definition message_envelope :: "string \<Rightarrow> envelope" where
  "message_envelope m = \<lparr>message = Some m, results = None, final_recommendation = None\<rparr>"

definition no_relevant_output :: envelope where
  "no_relevant_output = message_envelope ''NO_RELEVANT_OUTPUT''"


section \<open>The services and the pipeline\<close>

text \<open>
  The three things outside the function: the construction of the two service clients, the
  embedding model and the vector index. A call returns or raises. The embedding call
  returns the \<^verbatim>\<open>embedding\<close> field of the decoded body when it is there; the vector
  query returns the \<^verbatim>\<open>vectors\<close> field of the response when it is there.
\<close>

datatype 'a outcome = Returns 'a | Raises exn

record vector_query =
  queryVector :: "rat list"
  topK :: nat

record services =
  create_clients :: "unit outcome"
  invoke_model :: "string \<Rightarrow> rat list option outcome"
  query_vectors :: "vector_query \<Rightarrow> raw_vector list option outcome"

text \<open>The requests sent to the two services, in order.\<close>

datatype request = InvokeModel string | QueryVectors vector_query

text \<open>
  Steps 1 to 6: persona, embedding, the first vector query with \<^verbatim>\<open>topK = 10\<close>, and the
  scoring of its response. The result is an exception, an early return, or the query and
  the \<^verbatim>\<open>valid_results\<close> that step 7 goes on with.
\<close>

definition initial_pass ::
  "services \<Rightarrow> string \<Rightarrow> (exn + envelope + vector_query \<times> result_entry list) \<times> request list" where
  "initial_pass sv query =
     (let persona = infer_persona query;
          kws = all_keywords (str_lower query)
      in case invoke_model sv query of
           Raises e \<Rightarrow> (Inl e, [InvokeModel query])
         | Returns None \<Rightarrow> (Inr (Inl no_relevant_output), [InvokeModel query])
         | Returns (Some query_embedding) \<Rightarrow>
             (let vq = \<lparr>queryVector = query_embedding, topK = 10\<rparr>;
                  sent = [InvokeModel query, QueryVectors vq]
              in case query_vectors sv vq of
                   Raises e \<Rightarrow> (Inl e, sent)
                 | Returns None \<Rightarrow> (Inr (Inl no_relevant_output), sent)
                 | Returns (Some vectors) \<Rightarrow>
                     (if vectors = [] then (Inr (Inl no_relevant_output), sent)
                      else case score_cluster_filter persona kws vectors of
                             Inl e \<Rightarrow> (Inl e, sent)
                           | Inr valid_results \<Rightarrow> (Inr (Inr (vq, valid_results)), sent))))"

text \<open>
  Step 7: with fewer than two valid results the query is sent again with \<^verbatim>\<open>topK = 15\<close>;
  a non-empty response replaces \<^verbatim>\<open>valid_results\<close>, an empty or absent one leaves it.
\<close>

definition retry_pass ::
  "services \<Rightarrow> string \<Rightarrow> vector_query \<Rightarrow> result_entry list \<Rightarrow> (exn + result_entry list) \<times> request list" where
  "retry_pass sv query vq valid_results =
     (let persona = infer_persona query;
          kws = all_keywords (str_lower query)
      in if length valid_results < 2 then
           (let vq' = vq\<lparr>topK := 15\<rparr>
            in case query_vectors sv vq' of
                 Raises e \<Rightarrow> (Inl e, [QueryVectors vq'])
               | Returns None \<Rightarrow> (Inr valid_results, [QueryVectors vq'])
               | Returns (Some vectors) \<Rightarrow>
                   (if vectors = [] then (Inr valid_results, [QueryVectors vq'])
                    else (score_cluster_filter persona kws vectors, [QueryVectors vq'])))
         else (Inr valid_results, []))"

text \<open>The body of the main \<^verbatim>\<open>try\<close>.\<close>

definition try_block :: "services \<Rightarrow> string \<Rightarrow> (exn + envelope) \<times> request list" where
  "try_block sv query =
     (case initial_pass sv query of
        (Inl e, sent) \<Rightarrow> (Inl e, sent)
      | (Inr (Inl out), sent) \<Rightarrow> (Inr out, sent)
      | (Inr (Inr (vq, valid_results)), sent) \<Rightarrow>
          (case retry_pass sv query vq valid_results of
             (Inl e, sent') \<Rightarrow> (Inl e, sent @ sent')
           | (Inr valid_results', sent') \<Rightarrow> (Inr (prepare_output valid_results'), sent @ sent')))"

text \<open>
  The two handlers of the main \<^verbatim>\<open>try\<close>: \<^verbatim>\<open>except ClientError\<close>, then
  \<^verbatim>\<open>except Exception\<close>.
\<close>

definition handle_exception :: "exn \<Rightarrow> envelope" where
  "handle_exception e =
     (case e of
        ClientError m \<Rightarrow> message_envelope (''ClientError: '' @ str_of_exn e)
      | _ \<Rightarrow> message_envelope (''Exception: '' @ str_of_exn e))"

text \<open>
  What a call of the function does: it returns a dictionary or lets an exception out. The
  construction of the clients is in a \<^verbatim>\<open>try\<close> of its own whose only handler is
  \<^verbatim>\<open>except ClientError\<close>.
\<close>

datatype result = Returned envelope | Propagated exn

definition search_transcripts :: "services \<Rightarrow> string \<Rightarrow> result \<times> request list" where
  "search_transcripts sv query =
     (case create_clients sv of
        Raises e \<Rightarrow>
          (case e of
             ClientError m \<Rightarrow> (Returned (message_envelope (''ClientError: '' @ str_of_exn e)), [])
           | _ \<Rightarrow> (Propagated e, []))
      | Returns clients \<Rightarrow>
          (case try_block sv query of
             (Inl e, sent) \<Rightarrow> (Returned (handle_exception e), sent)
           | (Inr out, sent) \<Rightarrow> (Returned out, sent)))"


section \<open>Observations on a run\<close>

text \<open>The vector queries among the requests sent, in order.\<close>

definition vector_queries :: "request list \<Rightarrow> vector_query list" where
  "vector_queries sent =
     concat (map (\<lambda>r. case r of QueryVectors vq \<Rightarrow> [vq] | InvokeModel _ \<Rightarrow> []) sent)"

text \<open>
  The value of \<^verbatim>\<open>valid_results\<close> when the run reaches step 7 (after the first link
  filtering), and when it reaches step 8 (the output); \<open>None\<close> when it does not get there.
\<close>

definition first_valid_results :: "services \<Rightarrow> string \<Rightarrow> result_entry list option" where
  "first_valid_results sv query =
     (case create_clients sv of
        Raises e \<Rightarrow> None
      | Returns clients \<Rightarrow>
          (case fst (initial_pass sv query) of
             Inr (Inr (vq, valid_results)) \<Rightarrow> Some valid_results
           | _ \<Rightarrow> None))"

definition final_valid_results :: "services \<Rightarrow> string \<Rightarrow> result_entry list option" where
  "final_valid_results sv query =
     (case create_clients sv of
        Raises e \<Rightarrow> None
      | Returns clients \<Rightarrow>
          (case fst (initial_pass sv query) of
             Inr (Inr (vq, valid_results)) \<Rightarrow>
               (case fst (retry_pass sv query vq valid_results) of
                  Inr valid_results' \<Rightarrow> Some valid_results'
                | Inl e \<Rightarrow> None)
           | _ \<Rightarrow> None))"

text \<open>The success shape: results and a recommendation, no message.\<close>

definition is_success :: "envelope \<Rightarrow> bool" where
  "is_success out = (message out = None \<and> results out \<noteq> None \<and> final_recommendation out \<noteq> None)"

text \<open>
  The clustering rule on a raw vector: its content counts at least as many leadership
  terms as technical terms.
\<close>

definition raw_leans_leadership :: "raw_vector \<Rightarrow> bool" where
  "raw_leans_leadership v =
     (term_count (str_lower (dict_get (get_metadata v) ''source_text'' [])) technical_terms
        \<le> term_count (str_lower (dict_get (get_metadata v) ''source_text'' [])) leadership_terms)"

text \<open>A scored candidate carries the key, the metadata and the content of the vector it was built from.\<close>

definition built_from :: "raw_vector \<Rightarrow> scored_candidate \<Rightarrow> bool" where
  "built_from v c =
     (v_key v = Some (doc_id c) \<and> metadata c = get_metadata v
      \<and> content c = dict_get (get_metadata v) ''source_text'' [])"

text \<open>A list of scored candidates in descending order of hybrid score.\<close>

abbreviation desc :: "scored_candidate list \<Rightarrow> bool" where
  "desc cs \<equiv> sorted_wrt (\<lambda>a b. hybrid_score b \<le> hybrid_score a) cs"

text \<open>All four link fields absent, empty or the placeholder.\<close>

definition no_usable_link :: "dict \<Rightarrow> bool" where
  "no_usable_link md =
     list_all (\<lambda>(k, field). case map_of md field of
                               None \<Rightarrow> True
                             | Some v \<Rightarrow> v = [] \<or> str_lower v = ''not available'')
              link_fields"


section \<open>Example runs\<close>

definition ex_vector :: "string \<Rightarrow> rat \<Rightarrow> string \<Rightarrow> dict \<Rightarrow> raw_vector" where
  "ex_vector k d text links =
     \<lparr>v_key = Some k, v_distance = Some d, v_metadata = Some ((''source_text'', text) # links)\<rparr>"

text \<open>A leadership-leaning chunk far from the query and a technical-leaning one at distance 0.\<close>

definition ex_leader :: raw_vector where
  "ex_leader = ex_vector ''L1'' 1 ''risk'' [(''Deck Link'', ''http://d1'')]"

definition ex_tech :: raw_vector where
  "ex_tech = ex_vector ''T1'' 0 ''api api'' [(''Content Link'', ''http://c2''), (''Deck Link'', ''Not Available'')]"

definition ex_services :: "(vector_query \<Rightarrow> raw_vector list option outcome) \<Rightarrow> services" where
  "ex_services index =
     \<lparr>create_clients = Returns (), invoke_model = (\<lambda>q. Returns (Some [1/2, 1/4])),
      query_vectors = index\<rparr>"

definition ex_two :: services where
  "ex_two = ex_services (\<lambda>vq. Returns (Some [ex_leader, ex_tech]))"

definition ex_retry_empty :: services where
  "ex_retry_empty =
     ex_services (\<lambda>vq. if topK vq = 10 then Returns (Some [ex_leader]) else Returns None)"

definition ex_no_vectors :: services where
  "ex_no_vectors = ex_services (\<lambda>vq. Returns (Some []))"

definition ex_no_region :: services where
  "ex_no_region = (ex_two\<lparr>create_clients := Raises (OtherException ''You must specify a region.'')\<rparr>)"

definition ex_candidate :: "string \<Rightarrow> rat \<Rightarrow> rat \<Rightarrow> candidate" where
  "ex_candidate k kw meta =
     \<lparr>doc_id = k, content = [], metadata = [], summary = [], semantic_score = 0,
      keyword_score = kw, metadata_score = meta, matched_terms = []\<rparr>"

text \<open>The entry of \<^verbatim>\<open>valid_results\<close> for a chunk that has no summary in its metadata.\<close>

definition ex_entry :: "string \<Rightarrow> dict \<Rightarrow> rat \<Rightarrow> result_entry" where
  "ex_entry k links h =
     \<lparr>e_doc_id = k, e_links = links, e_hybrid_score = h,
      e_summary = Some ''No summary available..''\<rparr>"

definition ex_unlinked :: scored_candidate where
  "ex_unlinked =
     with_hybrid_score
       ((ex_candidate ''U1'' 0 0)\<lparr>metadata := [(''Deck Link'', ''Not Available''), (''Content Link'', [])]\<rparr>)
       (9/10)"


section \<open>Rounding\<close>

lemma round_half_even_le:
  assumes "x \<le> of_int n"
  shows "round_half_even x \<le> n"
proof (cases "\<lfloor>x\<rfloor> = n")
  case True
  then have "of_int n \<le> x" by (metis of_int_floor_le)
  with assms have "x = of_int n" by simp
  then show ?thesis by (simp add: round_half_even_def)
next
  case False
  from assms have "\<lfloor>x\<rfloor> \<le> n" by (simp add: floor_le_iff)
  with False have "\<lfloor>x\<rfloor> + 1 \<le> n" by simp
  then show ?thesis by (simp add: round_half_even_def Let_def)
qed

lemma binade_le_zero:
  assumes "0 < x" "x \<le> 1"
  shows "binade x \<le> 0"
proof -
  obtain p q where pq: "quotient_of x = (p, q)" by (cases "quotient_of x")
  then have q: "0 < q" by (rule quotient_of_denom_pos)
  from pq have x: "x = of_int p / of_int q" by (rule quotient_of_div)
  from assms x q have "0 < p" by (simp add: zero_less_divide_iff)
  from assms(2) x q have "p \<le> q" by (simp add: divide_le_eq)
  with \<open>0 < p\<close> have "bitlen \<bar>p\<bar> \<le> bitlen q"
    by (simp add: bitlen_def floorlog_mono)
  then show ?thesis using pq by (simp add: binade_def Let_def)
qed

text \<open>Rounding never carries a value that is at most 1 above 1.\<close>

lemma fl_le_one:
  assumes "x \<le> 1"
  shows "fl x \<le> 1"
proof (cases "x \<le> 0")
  case True
  show ?thesis
  proof (cases "x = 0")
    case True
    then show ?thesis by (simp add: fl_def)
  next
    case False
    define u :: rat where "u = 2 powi (binade x - 52)"
    have u: "0 < u" by (simp add: u_def)
    from True u have "x / u \<le> of_int 0" by (simp add: divide_le_0_iff)
    then have "round_half_even (x / u) \<le> 0" by (rule round_half_even_le)
    then have "(of_int (round_half_even (x / u)) :: rat) \<le> 0" by simp
    with u have "of_int (round_half_even (x / u)) * u \<le> 0"
      by (simp add: mult_le_0_iff)
    with False show ?thesis by (simp add: fl_def u_def Let_def)
  qed
next
  case False
  then have pos: "0 < x" by simp
  define u :: rat where "u = 2 powi (binade x - 52)"
  define N :: int where "N = 2 ^ nat (52 - binade x)"
  have e: "binade x \<le> 0" using pos assms by (rule binade_le_zero)
  have u: "0 < u" by (simp add: u_def)
  have "u = inverse (2 powi (52 - binade x))"
    unfolding u_def by (simp flip: power_int_minus)
  also have "(2::rat) powi (52 - binade x) = 2 ^ nat (52 - binade x)"
    using e by (simp add: power_int_def)
  finally have uN: "u = inverse (of_int N)" by (simp add: N_def)
  have Npos: "0 < N" by (simp add: N_def)
  have "x / u = x * of_int N" by (simp add: uN divide_inverse)
  also have "\<dots> \<le> of_int N" using assms Npos by (simp add: mult_le_cancel_right1)
  finally have "round_half_even (x / u) \<le> N" by (rule round_half_even_le)
  then have "(of_int (round_half_even (x / u)) :: rat) \<le> of_int N" by simp
  then have "of_int (round_half_even (x / u)) * u \<le> of_int N * u"
    using u by (simp add: mult_le_cancel_right)
  also have "of_int N * u = 1" using Npos by (simp add: uN)
  finally show ?thesis using pos by (simp add: fl_def u_def Let_def)
qed


section \<open>Persona and weights\<close>

text \<open>
  Claim C4. The persona inferred for a query is one of leadership, technical and general:
  leadership when the leadership confidence is the greater one, technical when the
  technical confidence is the greater one, general when the two are equal. The function
  is total: there is no failing case.
\<close>

theorem persona_by_confidence:
  "infer_persona q \<in> {Leadership, Technical, General}
   \<and> (technical_conf (str_lower q) < leadership_conf (str_lower q) \<longrightarrow> infer_persona q = Leadership)
   \<and> (leadership_conf (str_lower q) < technical_conf (str_lower q) \<longrightarrow> infer_persona q = Technical)
   \<and> (leadership_conf (str_lower q) = technical_conf (str_lower q) \<longrightarrow> infer_persona q = General)"
  by (cases "infer_persona q") (auto simp: infer_persona_def Let_def)

theorem persona_by_confidence_witness:
  "technical_conf (str_lower ''CISO risk'') < leadership_conf (str_lower ''CISO risk'')
   \<and> infer_persona ''CISO risk'' = Leadership
   \<and> leadership_conf (str_lower ''sdk'') < technical_conf (str_lower ''sdk'')
   \<and> infer_persona ''sdk'' = Technical
   \<and> leadership_conf (str_lower []) = technical_conf (str_lower [])
   \<and> leadership_conf (str_lower []) = 0
   \<and> infer_persona [] = General"
proof -
  have a: "technical_conf (str_lower ''CISO risk'') < leadership_conf (str_lower ''CISO risk'')"
    by code_simp
  have b: "leadership_conf (str_lower ''sdk'') < technical_conf (str_lower ''sdk'')"
    by code_simp
  have c: "leadership_conf (str_lower []) = technical_conf (str_lower [])"
    by code_simp
  have d: "leadership_conf (str_lower []) = 0"
    by code_simp
  show ?thesis
    using a b c d persona_by_confidence [of "''CISO risk''"] persona_by_confidence [of "''sdk''"]
      persona_by_confidence [of "[]"]
    by blast
qed

text \<open>
  Claim C8. For each persona the three weights, added as the floats they are, give exactly
  1: the semantic weight is the float 0.8, 0.6 or 0.7, the keyword weight is
  \<^verbatim>\<open>1.0 - semantic_weight - 0.05\<close>, and the metadata weight is the float 0.05.
\<close>

theorem weights_sum_to_one:
  "fadd (fadd (semantic_weight p) (keyword_weight p)) (fl (5/100)) = 1
   \<and> semantic_weight p = (case p of Leadership \<Rightarrow> fl (8/10) | Technical \<Rightarrow> fl (6/10) | General \<Rightarrow> fl (7/10))
   \<and> keyword_weight p = fsub (fsub 1 (semantic_weight p)) (fl (5/100))"
proof -
  have "fadd (fadd (semantic_weight Leadership) (keyword_weight Leadership)) (fl (5/100)) = 1"
    by code_simp
  moreover have "fadd (fadd (semantic_weight Technical) (keyword_weight Technical)) (fl (5/100)) = 1"
    by code_simp
  moreover have "fadd (fadd (semantic_weight General) (keyword_weight General)) (fl (5/100)) = 1"
    by code_simp
  ultimately show ?thesis
    by (cases p) (simp_all add: keyword_weight_def semantic_weight_def)
qed


section \<open>Summary truncation\<close>

lemma str_split_nonempty: "str_split d s \<noteq> []"
  by (induction s) (auto split: list.splits)

text \<open>
  Claim C9, as the code has it. The summary is split on the period, its first two segments
  are joined with a period followed by a space, the result is stripped of surrounding
  whitespace, and a period is appended; the split always yields a segment, so the
  period is appended for every summary.
\<close>

theorem summary_truncation:
  "truncate_summary s = str_strip (str_join ''. '' (take 2 (str_split (CHR ''.'') s))) @ ''.''
   \<and> str_split (CHR ''.'') s \<noteq> []"
  by (simp add: truncate_summary_def Let_def str_split_nonempty)

text \<open>
  The stripping is that of Python also beyond ASCII: a no-break space before the summary
  goes, and an upper-case letter of Latin-1 is lowered with the rest.
\<close>

lemma summary_truncation_latin1:
  "truncate_summary ([CHR 0xA0] @ ''Hi'') = ''Hi.''"
  by (simp add: truncate_summary_def str_strip_def isspace_def)

lemma str_lower_latin1:
  "str_lower ([CHR 0xC9] @ ''T'' @ [CHR 0xD7]) = [CHR 0xE9] @ ''t'' @ [CHR 0xD7]"
  by code_simp

text \<open>
  Joining with the bare period, as the claim words it, gives another string: on
  \<open>''A. B. C''\<close> the code yields \<open>''A.  B.''\<close>, with two spaces.
\<close>

theorem summary_truncation_counterexample:
  "truncate_summary ''A. B. C'' = ''A.  B.'' \<and> spec_truncate_summary ''A. B. C'' = ''A. B.''
   \<and> truncate_summary ''A. B. C'' \<noteq> spec_truncate_summary ''A. B. C''"
  by (simp add: truncate_summary_def spec_truncate_summary_def str_strip_def isspace_def)


section \<open>Normalization\<close>

lemma max_default_ge: "x \<in> set xs \<Longrightarrow> x \<le> max_default xs"
  by (induction xs rule: max_default.induct) auto

lemma max_default_zero: "(\<forall>x\<in>set xs. x = 0) \<Longrightarrow> max_default xs = 0"
  by (induction xs rule: max_default.induct) auto

lemma normalize_le_one:
  assumes "x \<le> m"
  shows "normalize m x \<le> 1"
proof (cases "0 < m")
  case True
  with assms have "x / m \<le> 1" by (simp add: divide_le_eq)
  then have "fl (x / m) \<le> 1" by (rule fl_le_one)
  with True show ?thesis by (simp add: normalize_def fdiv_def)
next
  case False
  then show ?thesis by (simp add: normalize_def)
qed

text \<open>
  Claim C7. In a batch of candidates scored in one pass, the normalized keyword score and
  the normalized metadata score of every candidate are at most 1; each is the raw score
  divided by the maximum of the batch when that maximum is positive; and each is 0 for
  every candidate when all raw scores of its kind in the batch are 0.
\<close>

theorem normalized_scores_bounded:
  assumes "c \<in> set candidates"
  shows "norm_kw candidates c \<le> 1 \<and> norm_meta candidates c \<le> 1
       \<and> (0 < max_default (map keyword_score candidates) \<longrightarrow>
            norm_kw candidates c = fdiv (keyword_score c) (max_default (map keyword_score candidates)))
       \<and> (0 < max_default (map metadata_score candidates) \<longrightarrow>
            norm_meta candidates c = fdiv (metadata_score c) (max_default (map metadata_score candidates)))
       \<and> ((\<forall>d\<in>set candidates. keyword_score d = 0) \<longrightarrow> norm_kw candidates c = 0)
       \<and> ((\<forall>d\<in>set candidates. metadata_score d = 0) \<longrightarrow> norm_meta candidates c = 0)"
proof -
  from assms have "keyword_score c \<le> max_default (map keyword_score candidates)"
    by (intro max_default_ge) simp
  then have kw: "norm_kw candidates c \<le> 1"
    unfolding norm_kw_def by (rule normalize_le_one)
  from assms have "metadata_score c \<le> max_default (map metadata_score candidates)"
    by (intro max_default_ge) simp
  then have meta: "norm_meta candidates c \<le> 1"
    unfolding norm_meta_def by (rule normalize_le_one)
  have kw0: "norm_kw candidates c = 0" if "\<forall>d\<in>set candidates. keyword_score d = 0"
  proof -
    from that have "max_default (map keyword_score candidates) = 0"
      by (intro max_default_zero) simp
    then show ?thesis by (simp add: norm_kw_def normalize_def)
  qed
  have meta0: "norm_meta candidates c = 0" if "\<forall>d\<in>set candidates. metadata_score d = 0"
  proof -
    from that have "max_default (map metadata_score candidates) = 0"
      by (intro max_default_zero) simp
    then show ?thesis by (simp add: norm_meta_def normalize_def)
  qed
  show ?thesis using kw meta kw0 meta0
    by (simp add: norm_kw_def norm_meta_def normalize_def)
qed

theorem normalized_scores_bounded_witness:
  "ex_candidate ''b'' (1/4) 0 \<in> set [ex_candidate ''a'' (1/2) 0, ex_candidate ''b'' (1/4) 0]
   \<and> 0 < max_default (map keyword_score [ex_candidate ''a'' (1/2) 0, ex_candidate ''b'' (1/4) 0])
   \<and> list_all (\<lambda>d. metadata_score d = 0) [ex_candidate ''a'' (1/2) 0, ex_candidate ''b'' (1/4) 0]
   \<and> norm_kw [ex_candidate ''a'' (1/2) 0, ex_candidate ''b'' (1/4) 0] (ex_candidate ''b'' (1/4) 0) \<le> 1
   \<and> norm_meta [ex_candidate ''a'' (1/2) 0, ex_candidate ''b'' (1/4) 0] (ex_candidate ''b'' (1/4) 0) = 0
   \<and> ex_candidate ''c'' 0 (1/3) \<in> set [ex_candidate ''c'' 0 (1/3)]
   \<and> 0 < max_default (map metadata_score [ex_candidate ''c'' 0 (1/3)])
   \<and> list_all (\<lambda>d. keyword_score d = 0) [ex_candidate ''c'' 0 (1/3)]
   \<and> norm_meta [ex_candidate ''c'' 0 (1/3)] (ex_candidate ''c'' 0 (1/3)) \<le> 1
   \<and> norm_kw [ex_candidate ''c'' 0 (1/3)] (ex_candidate ''c'' 0 (1/3)) = 0"
proof -
  let ?b = "ex_candidate ''b'' (1/4) 0"
  let ?A = "[ex_candidate ''a'' (1/2) 0, ?b]"
  let ?c = "ex_candidate ''c'' 0 (1/3)"
  have b: "?b \<in> set ?A" by simp
  have kw: "0 < max_default (map keyword_score ?A)" by (simp add: ex_candidate_def)
  have meta0: "\<forall>d\<in>set ?A. metadata_score d = 0" by (simp add: ex_candidate_def)
  have c: "?c \<in> set [?c]" by simp
  have meta: "0 < max_default (map metadata_score [?c])" by (simp add: ex_candidate_def)
  have kw0: "\<forall>d\<in>set [?c]. keyword_score d = 0" by (simp add: ex_candidate_def)
  show ?thesis
    using b kw meta0 c meta kw0 normalized_scores_bounded [OF b] normalized_scores_bounded [OF c]
    unfolding list_all_iff by blast
qed


section \<open>The retrieval pipeline\<close>

subsection \<open>Scoring keeps identity, content and metadata\<close>

lemma build_candidate_fields:
  "build_candidate p kws v = Inr c \<Longrightarrow>
     v_key v = Some (doc_id c) \<and> metadata c = get_metadata v
     \<and> content c = dict_get (get_metadata v) ''source_text'' []"
  by (auto simp: build_candidate_def Let_def split: option.splits)

lemma with_hybrid_score_fields [simp]:
  "doc_id (with_hybrid_score c h) = doc_id c"
  "metadata (with_hybrid_score c h) = metadata c"
  "content (with_hybrid_score c h) = content c"
  "summary (with_hybrid_score c h) = summary c"
  "hybrid_score (with_hybrid_score c h) = h"
  by (simp_all add: with_hybrid_score_def)

lemma blend_built_from:
  "build_candidates p kws vs = Inr cs \<Longrightarrow> list_all2 built_from vs (blend p' cs)"
proof (induction vs arbitrary: cs)
  case Nil
  then show ?case by (simp add: blend_def)
next
  case (Cons v vs)
  from Cons.prems obtain c cs' where c: "build_candidate p kws v = Inr c"
    and cs': "build_candidates p kws vs = Inr cs'" and cs: "cs = c # cs'"
    by (auto split: sum.splits)
  have "list_all2 built_from vs (blend p' cs')" using cs' by (rule Cons.IH)
  then have "list_all2 (\<lambda>v c. built_from v (with_hybrid_score c (h c))) vs cs'" for h
    by (simp add: blend_def list_all2_map2 built_from_def)
  moreover have "built_from v (with_hybrid_score c x)" for x
    using build_candidate_fields [OF c] by (simp add: built_from_def)
  ultimately show ?case by (simp add: blend_def list_all2_map2 cs)
qed

lemma built_from_leans: "built_from v c \<Longrightarrow> leans_leadership c = raw_leans_leadership v"
  by (simp add: built_from_def leans_leadership_def raw_leans_leadership_def)

lemma filter_length_rel:
  "list_all2 (\<lambda>x y. P x = Q y) xs ys \<Longrightarrow> length (filter P xs) = length (filter Q ys)"
  by (induction rule: list_all2_induct) auto

lemma leaning_count:
  assumes "list_all2 built_from vs scs"
  shows "length (filter leans_leadership scs) = length (filter raw_leans_leadership vs)"
proof -
  from assms have "list_all2 (\<lambda>v c. raw_leans_leadership v = leans_leadership c) vs scs"
    by (rule list_all2_mono) (simp add: built_from_leans)
  then show ?thesis by (simp add: filter_length_rel)
qed

subsection \<open>Clustering selects among the scored candidates\<close>

lemma hd_sort_key_in: "xs \<noteq> [] \<Longrightarrow> hd (sort_key f xs) \<in> set xs"
  by (metis hd_in_set length_0_conv length_sort set_sort)

lemma set_cluster: "set (cluster p scs) \<subseteq> set scs"
proof -
  have "hd (sort_by_hybrid_desc (filter P scs)) \<in> set scs" if "filter P scs \<noteq> []" for P
    using hd_sort_key_in [OF that] by (auto simp: sort_by_hybrid_desc_def)
  then show ?thesis
    by (auto simp: cluster_def Let_def sort_by_hybrid_desc_def dest!: in_set_takeD)
qed

lemma desc_sort: "desc (sort_by_hybrid_desc cs)"
proof -
  have "sorted (map (\<lambda>c. - hybrid_score c) (sort_key (\<lambda>c. - hybrid_score c) cs))"
    by (rule sorted_sort_key)
  then show ?thesis by (simp add: sort_by_hybrid_desc_def sorted_map)
qed

lemma desc_cluster:
  assumes "\<not> (p = Leadership \<and> length (filter leans_leadership scs) = 1)"
  shows "desc (cluster p scs)"
proof (cases "p = Leadership \<and> filter leans_leadership scs \<noteq> []")
  case True
  with assms have "2 \<le> length (filter leans_leadership scs)"
    by (cases "filter leans_leadership scs" rule: list.exhaust) (auto simp: Suc_le_eq)
  then have "\<not> length (take 2 (sort_by_hybrid_desc (filter leans_leadership scs))) < 2"
    by (simp add: sort_by_hybrid_desc_def)
  with True show ?thesis
    by (simp add: cluster_def Let_def desc_sort sorted_wrt_take)
next
  case False
  then show ?thesis
    by (auto simp: cluster_def Let_def desc_sort sorted_wrt_take)
qed

subsection \<open>Link filtering\<close>

lemma collect_valid_entry:
  "r \<in> set (collect_valid docs) \<Longrightarrow>
     \<exists>doc\<in>set docs. e_doc_id r = doc_id doc \<and> e_links r = extract_links (metadata doc)
                   \<and> e_links r \<noteq> [] \<and> e_hybrid_score r = hybrid_score doc"
  by (induction docs) (auto simp: Let_def split: if_splits)

lemma desc_collect_valid:
  "desc docs \<Longrightarrow> sorted_wrt (\<lambda>a b. e_hybrid_score b \<le> e_hybrid_score a) (collect_valid docs)"
proof (induction docs)
  case Nil
  then show ?case by simp
next
  case (Cons doc docs)
  then have tl: "sorted_wrt (\<lambda>a b. e_hybrid_score b \<le> e_hybrid_score a) (collect_valid docs)"
    by simp
  have "e_hybrid_score r \<le> hybrid_score doc" if "r \<in> set (collect_valid docs)" for r
    using collect_valid_entry [OF that] Cons.prems by auto
  with tl show ?case by (simp add: Let_def)
qed

lemma str_lower_Nil_iff [simp]: "str_lower v = [] \<longleftrightarrow> v = []"
  by (simp add: str_lower_def)

lemma usable_iff: "usable v \<longleftrightarrow> v \<noteq> [] \<and> str_lower v \<noteq> ''not available''"
  by (auto simp: usable_def)

lemma dict_get_usable:
  "(u = dict_get md field [] \<and> usable u) \<longleftrightarrow> (map_of md field = Some u \<and> usable u)"
  by (auto simp: dict_get_def usable_def split: option.splits)

lemma in_extract_links_aux:
  "(k, u) \<in> set (extract_links md) \<longleftrightarrow>
     (\<exists>field. (k, field) \<in> set link_fields \<and> u = dict_get md field [] \<and> usable u)"
  by (auto simp: extract_links_def Let_def split: if_splits)

lemma in_extract_links:
  "(k, u) \<in> set (extract_links md) \<longleftrightarrow>
     (\<exists>field. (k, field) \<in> set link_fields \<and> map_of md field = Some u
              \<and> u \<noteq> [] \<and> str_lower u \<noteq> ''not available'')"
proof -
  have "(u = dict_get md field [] \<and> u \<noteq> [] \<and> str_lower u \<noteq> ''not available'')
        \<longleftrightarrow> (map_of md field = Some u \<and> u \<noteq> [] \<and> str_lower u \<noteq> ''not available'')" for field
    using dict_get_usable [of u md field] by (simp add: usable_iff)
  then show ?thesis
    unfolding in_extract_links_aux usable_iff by blast
qed

lemma extract_links_Nil_iff:
  "extract_links md = [] \<longleftrightarrow> (\<forall>k field. (k, field) \<in> set link_fields \<longrightarrow> \<not> usable (dict_get md field []))"
  by (auto simp: extract_links_def Let_def split: if_splits)

lemma list_all2_in_set2: "list_all2 P xs ys \<Longrightarrow> y \<in> set ys \<Longrightarrow> \<exists>x\<in>set xs. P x y"
  by (induction rule: list_all2_induct) auto

lemma scf_entry:
  assumes "score_cluster_filter p kws vs = Inr vr" "r \<in> set vr"
  shows "\<exists>v\<in>set vs. v_key v = Some (e_doc_id r) \<and> e_links r = extract_links (get_metadata v)
                    \<and> e_links r \<noteq> []"
proof -
  from assms(1) obtain cs where cs: "build_candidates p kws vs = Inr cs"
    and vr: "vr = collect_valid (cluster p (blend p cs))"
    by (auto simp: score_cluster_filter_def split: sum.splits)
  from assms(2) vr obtain doc where doc: "doc \<in> set (cluster p (blend p cs))"
    and r: "e_doc_id r = doc_id doc" "e_links r = extract_links (metadata doc)" "e_links r \<noteq> []"
    using collect_valid_entry by blast
  from doc set_cluster have in_blend: "doc \<in> set (blend p cs)" by blast
  from list_all2_in_set2 [OF blend_built_from [OF cs] in_blend]
  obtain v where "v \<in> set vs" "built_from v doc" by blast
  with r show ?thesis by (auto simp: built_from_def)
qed

lemma scf_desc:
  assumes "score_cluster_filter p kws vs = Inr vr"
    and "\<not> (p = Leadership \<and> length (filter raw_leans_leadership vs) = 1)"
  shows "sorted_wrt (\<lambda>a b. e_hybrid_score b \<le> e_hybrid_score a) vr"
proof -
  from assms(1) obtain cs where cs: "build_candidates p kws vs = Inr cs"
    and vr: "vr = collect_valid (cluster p (blend p cs))"
    by (auto simp: score_cluster_filter_def split: sum.splits)
  have "length (filter leans_leadership (blend p cs)) = length (filter raw_leans_leadership vs)"
    using blend_built_from [OF cs] by (rule leaning_count)
  with assms(2) have "\<not> (p = Leadership \<and> length (filter leans_leadership (blend p cs)) = 1)"
    by simp
  then have "desc (cluster p (blend p cs))" by (rule desc_cluster)
  then show ?thesis unfolding vr by (rule desc_collect_valid)
qed

subsection \<open>The stages\<close>

lemma envelope_results [simp]:
  "results (message_envelope m) = None"
  "results no_relevant_output = None"
  "results (handle_exception e) = None"
  "message (message_envelope m) = Some m"
  "message no_relevant_output = Some ''NO_RELEVANT_OUTPUT''"
  "message (handle_exception e) \<noteq> None"
  "final_recommendation (message_envelope m) = None"
  "final_recommendation no_relevant_output = None"
  "final_recommendation (handle_exception e) = None"
  by (simp_all add: message_envelope_def no_relevant_output_def handle_exception_def split: exn.splits)

lemma initial_pass_continue:
  assumes "initial_pass sv q = (Inr (Inr (vq, vr)), sent)"
  shows "\<exists>emb vectors. invoke_model sv q = Returns (Some emb)
           \<and> vq = \<lparr>queryVector = emb, topK = 10\<rparr>
           \<and> sent = [InvokeModel q, QueryVectors vq]
           \<and> query_vectors sv vq = Returns (Some vectors) \<and> vectors \<noteq> []
           \<and> score_cluster_filter (infer_persona q) (all_keywords (str_lower q)) vectors = Inr vr"
  using assms
  by (auto simp: initial_pass_def Let_def split: outcome.splits option.splits sum.splits if_splits)

lemma initial_pass_return:
  "initial_pass sv q = (Inr (Inl out), sent) \<Longrightarrow> out = no_relevant_output"
  by (auto simp: initial_pass_def Let_def split: outcome.splits option.splits sum.splits if_splits)

lemma initial_pass_sent:
  "vector_queries (snd (initial_pass sv q)) = []
   \<or> (\<exists>emb. vector_queries (snd (initial_pass sv q)) = [\<lparr>queryVector = emb, topK = 10\<rparr>])"
  by (auto simp: initial_pass_def vector_queries_def Let_def
           split: outcome.splits option.splits sum.splits if_splits)

lemma retry_pass_no_retry:
  "2 \<le> length vr \<Longrightarrow> retry_pass sv q vq vr = (Inr vr, [])"
  by (simp add: retry_pass_def)

lemma retry_pass_retry:
  assumes "length vr < 2"
  shows "snd (retry_pass sv q vq vr) = [QueryVectors (vq\<lparr>topK := 15\<rparr>)]"
    and "fst (retry_pass sv q vq vr) =
           (case query_vectors sv (vq\<lparr>topK := 15\<rparr>) of
              Raises e \<Rightarrow> Inl e
            | Returns None \<Rightarrow> Inr vr
            | Returns (Some vectors) \<Rightarrow>
                if vectors = [] then Inr vr
                else score_cluster_filter (infer_persona q) (all_keywords (str_lower q)) vectors)"
  using assms
  by (auto simp: retry_pass_def Let_def split: outcome.splits option.splits)

lemma search_transcripts_results:
  assumes "search_transcripts sv q = (Returned out, sent)" "results out = Some rs"
  shows "try_block sv q = (Inr out, sent)"
  using assms
  by (auto simp: search_transcripts_def split: outcome.splits exn.splits sum.splits prod.splits)

lemma try_block_results:
  assumes "try_block sv q = (Inr out, sent)" "results out = Some rs"
  shows "\<exists>vq vr s1 vr' s2. initial_pass sv q = (Inr (Inr (vq, vr)), s1)
           \<and> retry_pass sv q vq vr = (Inr vr', s2)
           \<and> out = prepare_output vr' \<and> sent = s1 @ s2"
  using assms
  by (auto simp: try_block_def split: prod.splits sum.splits dest!: initial_pass_return)

lemma run_with_results:
  assumes "search_transcripts sv q = (Returned out, sent)" "results out = Some rs"
  shows "\<exists>vq vectors vr. QueryVectors vq \<in> set sent
           \<and> query_vectors sv vq = Returns (Some vectors)
           \<and> score_cluster_filter (infer_persona q) (all_keywords (str_lower q)) vectors = Inr vr
           \<and> out = prepare_output vr
           \<and> (2 \<le> length vr \<longrightarrow> last sent = QueryVectors vq)"
proof -
  from assms have "try_block sv q = (Inr out, sent)" by (rule search_transcripts_results)
  from try_block_results [OF this assms(2)]
  obtain vq vr s1 vr' s2 where ip: "initial_pass sv q = (Inr (Inr (vq, vr)), s1)"
    and rp: "retry_pass sv q vq vr = (Inr vr', s2)"
    and out: "out = prepare_output vr'" and sent: "sent = s1 @ s2"
    by blast
  from initial_pass_continue [OF ip]
  obtain emb vectors where s1: "s1 = [InvokeModel q, QueryVectors vq]"
    and qv: "query_vectors sv vq = Returns (Some vectors)"
    and scf: "score_cluster_filter (infer_persona q) (all_keywords (str_lower q)) vectors = Inr vr"
    by blast
  show ?thesis
  proof (cases "2 \<le> length vr")
    case True
    with rp have "vr' = vr" "s2 = []" by (simp_all add: retry_pass_no_retry)
    with s1 qv scf out sent show ?thesis
      by (intro exI [of _ vq] exI [of _ vectors] exI [of _ vr]) simp
  next
    case False
    then have short: "length vr < 2" by simp
    have s2: "s2 = [QueryVectors (vq\<lparr>topK := 15\<rparr>)]"
      using retry_pass_retry(1) [OF short, of sv q vq] rp by simp
    have res: "(case query_vectors sv (vq\<lparr>topK := 15\<rparr>) of
                  Raises e \<Rightarrow> Inl e
                | Returns None \<Rightarrow> Inr vr
                | Returns (Some vectors) \<Rightarrow>
                    if vectors = [] then Inr vr
                    else score_cluster_filter (infer_persona q) (all_keywords (str_lower q)) vectors)
               = Inr vr'"
      using retry_pass_retry(2) [OF short, of sv q vq] rp by simp
    show ?thesis
    proof (cases "\<exists>vectors'. query_vectors sv (vq\<lparr>topK := 15\<rparr>) = Returns (Some vectors') \<and> vectors' \<noteq> []")
      case True
      then obtain vectors' where qv': "query_vectors sv (vq\<lparr>topK := 15\<rparr>) = Returns (Some vectors')"
        and ne: "vectors' \<noteq> []" by blast
      with res have "score_cluster_filter (infer_persona q) (all_keywords (str_lower q)) vectors' = Inr vr'"
        by simp
      with qv' out sent s1 s2 show ?thesis
        by (intro exI [of _ "vq\<lparr>topK := 15\<rparr>"] exI [of _ vectors'] exI [of _ vr']) simp
    next
      case False
      with res have "vr' = vr"
        by (auto split: outcome.splits option.splits if_splits)
      with short s1 qv scf out sent show ?thesis
        by (intro exI [of _ vq] exI [of _ vectors] exI [of _ vr]) simp
    qed
  qed
qed

lemma prepare_output_results:
  assumes "results (prepare_output vr) = Some rs" "r \<in> set rs"
  shows "\<exists>r'\<in>set vr. e_doc_id r = e_doc_id r' \<and> e_links r = e_links r'
                     \<and> e_hybrid_score r = e_hybrid_score r'"
proof (cases "length vr < 2")
  case True
  with assms show ?thesis by (auto simp: prepare_output_def)
next
  case False
  with assms obtain r' where "r' \<in> set (take 2 vr)"
    and "r = \<lparr>e_doc_id = e_doc_id r', e_links = e_links r',
                e_hybrid_score = e_hybrid_score r', e_summary = None\<rparr>"
    by (auto simp: prepare_output_def Let_def)
  then show ?thesis by (auto dest: in_set_takeD)
qed

lemma collect_valid_append: "collect_valid (xs @ ys) = collect_valid xs @ collect_valid ys"
  by (induction xs) (simp_all add: Let_def)

lemma not_usable_get:
  "\<not> usable (dict_get md field []) \<longleftrightarrow>
     (case map_of md field of None \<Rightarrow> True | Some v \<Rightarrow> v = [] \<or> str_lower v = ''not available'')"
  by (simp add: dict_get_def usable_iff split: option.splits)

lemma no_usable_link_iff: "no_usable_link md \<longleftrightarrow> extract_links md = []"
proof -
  have "no_usable_link md \<longleftrightarrow>
          (\<forall>k field. (k, field) \<in> set link_fields \<longrightarrow> \<not> usable (dict_get md field []))"
    unfolding no_usable_link_def list_all_iff not_usable_get by fastforce
  then show ?thesis by (simp add: extract_links_Nil_iff)
qed

text \<open>
  Claim C6. A candidate whose four link fields are all absent, empty or the placeholder
  ``not available'' in any letter case adds no entry to the valid results. Every entry of
  the results of a returned envelope was built from a vector of the response to one of the
  queries sent; that vector has a usable link field, and the links of the entry are exactly
  the link fields of the vector that are present, non-empty and not the placeholder.
\<close>

theorem link_filter:
  "(no_usable_link (metadata doc) \<longrightarrow> collect_valid (pre @ doc # post) = collect_valid (pre @ post))
   \<and> (search_transcripts sv q = (Returned out, sent) \<and> results out = Some rs \<and> r \<in> set rs \<longrightarrow>
        (\<exists>vq vectors v.
            QueryVectors vq \<in> set sent \<and> query_vectors sv vq = Returns (Some vectors)
            \<and> v \<in> set vectors \<and> v_key v = Some (e_doc_id r)
            \<and> \<not> no_usable_link (get_metadata v)
            \<and> e_links r = extract_links (get_metadata v)
            \<and> (\<forall>k u. (k, u) \<in> set (e_links r) \<longleftrightarrow>
                   (\<exists>field. (k, field) \<in> set link_fields \<and> map_of (get_metadata v) field = Some u
                            \<and> u \<noteq> [] \<and> str_lower u \<noteq> ''not available''))))"
proof (intro conjI impI)
  assume "no_usable_link (metadata doc)"
  then have "extract_links (metadata doc) = []" by (simp add: no_usable_link_iff)
  then show "collect_valid (pre @ doc # post) = collect_valid (pre @ post)"
    by (simp add: collect_valid_append)
next
  assume a: "search_transcripts sv q = (Returned out, sent) \<and> results out = Some rs \<and> r \<in> set rs"
  then have run: "search_transcripts sv q = (Returned out, sent)" and rs: "results out = Some rs"
    and r: "r \<in> set rs" by simp_all
  from run_with_results [OF run rs]
  obtain vq vectors vr where sent: "QueryVectors vq \<in> set sent"
    and qv: "query_vectors sv vq = Returns (Some vectors)"
    and scf: "score_cluster_filter (infer_persona q) (all_keywords (str_lower q)) vectors = Inr vr"
    and out: "out = prepare_output vr"
    by blast
  from rs r out obtain r' where r': "r' \<in> set vr" and same: "e_doc_id r = e_doc_id r'"
    "e_links r = e_links r'"
    using prepare_output_results [of vr rs r] by auto
  from scf_entry [OF scf r']
  obtain v where v: "v \<in> set vectors" "v_key v = Some (e_doc_id r')"
    "e_links r' = extract_links (get_metadata v)" "e_links r' \<noteq> []"
    by blast
  have links: "e_links r = extract_links (get_metadata v)" using same v by simp
  have "\<not> no_usable_link (get_metadata v)" using v by (simp add: no_usable_link_iff)
  moreover have "\<forall>k u. (k, u) \<in> set (e_links r) \<longleftrightarrow>
       (\<exists>field. (k, field) \<in> set link_fields \<and> map_of (get_metadata v) field = Some u
                \<and> u \<noteq> [] \<and> str_lower u \<noteq> ''not available'')"
    unfolding links by (simp add: in_extract_links)
  ultimately show "\<exists>vq vectors v.
            QueryVectors vq \<in> set sent \<and> query_vectors sv vq = Returns (Some vectors)
            \<and> v \<in> set vectors \<and> v_key v = Some (e_doc_id r)
            \<and> \<not> no_usable_link (get_metadata v)
            \<and> e_links r = extract_links (get_metadata v)
            \<and> (\<forall>k u. (k, u) \<in> set (e_links r) \<longleftrightarrow>
                   (\<exists>field. (k, field) \<in> set link_fields \<and> map_of (get_metadata v) field = Some u
                            \<and> u \<noteq> [] \<and> str_lower u \<noteq> ''not available''))"
    using sent qv v(1,2) same(1) links
    by (intro exI [of _ vq] exI [of _ vectors] exI [of _ v]) simp
qed

subsection \<open>Order of the results\<close>

text \<open>
  The technical candidates are those that do not lean to leadership: the membership test
  \<^verbatim>\<open>c not in leadership_candidates\<close> selects the complement of the filter.
\<close>

lemma technical_candidates_filter:
  "filter (\<lambda>c. c \<notin> set (filter P xs)) xs = filter (\<lambda>c. \<not> P c) xs"
  by (rule filter_cong) auto

lemma cluster_backfill:
  assumes "filter leans_leadership scs = [l]"
  shows "cluster Leadership scs =
           (if filter (\<lambda>c. \<not> leans_leadership c) scs = [] then [l]
            else [l, hd (sort_by_hybrid_desc (filter (\<lambda>c. \<not> leans_leadership c) scs))])"
  unfolding cluster_def Let_def technical_candidates_filter
  using assms by (simp add: sort_by_hybrid_desc_def)

lemma scf_backfill:
  assumes scf: "score_cluster_filter Leadership kws vs = Inr vr"
    and one: "length (filter raw_leans_leadership vs) = 1"
    and vr: "vr = a # b # rest"
  shows "\<exists>v1 v2. v1 \<in> set vs \<and> v2 \<in> set vs
           \<and> raw_leans_leadership v1 \<and> \<not> raw_leans_leadership v2
           \<and> v_key v1 = Some (e_doc_id a) \<and> v_key v2 = Some (e_doc_id b)"
proof -
  from scf obtain cs where cs: "build_candidates Leadership kws vs = Inr cs"
    and vr': "vr = collect_valid (cluster Leadership (blend Leadership cs))"
    by (auto simp: score_cluster_filter_def split: sum.splits)
  let ?scs = "blend Leadership cs"
  let ?techs = "filter (\<lambda>c. \<not> leans_leadership c) ?scs"
  have rel: "list_all2 built_from vs ?scs" using cs by (rule blend_built_from)
  from leaning_count [OF rel] one have "length (filter leans_leadership ?scs) = 1" by simp
  then obtain l where l: "filter leans_leadership ?scs = [l]"
    by (cases "filter leans_leadership ?scs") auto
  define t where "t = hd (sort_by_hybrid_desc ?techs)"
  have cl: "cluster Leadership ?scs = (if ?techs = [] then [l] else [l, t])"
    unfolding t_def using l by (rule cluster_backfill)
  have techs: "?techs \<noteq> []"
  proof
    assume "?techs = []"
    with cl vr' have "length vr \<le> 1" by (simp add: Let_def)
    with vr show False by simp
  qed
  with cl vr' vr have ab: "e_doc_id a = doc_id l" "e_doc_id b = doc_id t"
    by (auto simp: Let_def split: if_splits)
  have "l \<in> set (filter leans_leadership ?scs)" using l by simp
  then have l_in: "l \<in> set ?scs" and l_lean: "leans_leadership l" by simp_all
  have "t \<in> set ?techs"
    unfolding t_def sort_by_hybrid_desc_def using techs by (rule hd_sort_key_in)
  then have t_in: "t \<in> set ?scs" and t_lean: "\<not> leans_leadership t" by simp_all
  from list_all2_in_set2 [OF rel l_in] obtain v1 where v1: "v1 \<in> set vs" "built_from v1 l"
    by blast
  from list_all2_in_set2 [OF rel t_in] obtain v2 where v2: "v2 \<in> set vs" "built_from v2 t"
    by blast
  from v1(2) l_lean have "raw_leans_leadership v1" by (simp add: built_from_leans)
  moreover from v2(2) t_lean have "\<not> raw_leans_leadership v2" by (simp add: built_from_leans)
  moreover from v1(2) ab have "v_key v1 = Some (e_doc_id a)" by (simp add: built_from_def)
  moreover from v2(2) ab have "v_key v2 = Some (e_doc_id b)" by (simp add: built_from_def)
  ultimately show ?thesis using v1(1) v2(1) by blast
qed

text \<open>
  Claim C2, as the code has it. A success envelope has exactly two results. The first has
  a hybrid score at least that of the second in every run but those where the persona is
  leadership and the last vector response holds exactly one leadership-leaning chunk:
  there the first result is that chunk and the second is a technical-leaning chunk, the
  backfill, whatever their scores.
\<close>

theorem success_two_ordered:
  assumes "search_transcripts sv q = (Returned out, sent)" "is_success out"
  shows "\<exists>r1 r2. results out = Some [r1, r2]
           \<and> (e_hybrid_score r2 \<le> e_hybrid_score r1
              \<or> (infer_persona q = Leadership
                 \<and> (\<exists>vq vectors v1 v2. last sent = QueryVectors vq
                       \<and> query_vectors sv vq = Returns (Some vectors)
                       \<and> length (filter raw_leans_leadership vectors) = 1
                       \<and> v1 \<in> set vectors \<and> raw_leans_leadership v1
                       \<and> v_key v1 = Some (e_doc_id r1)
                       \<and> v2 \<in> set vectors \<and> \<not> raw_leans_leadership v2
                       \<and> v_key v2 = Some (e_doc_id r2))))"
proof -
  from assms(2) obtain rs where rs: "results out = Some rs" and msg: "message out = None"
    by (auto simp: is_success_def)
  from run_with_results [OF assms(1) rs]
  obtain vq vectors vr where qv: "query_vectors sv vq = Returns (Some vectors)"
    and scf: "score_cluster_filter (infer_persona q) (all_keywords (str_lower q)) vectors = Inr vr"
    and out: "out = prepare_output vr"
    and last: "2 \<le> length vr \<longrightarrow> last sent = QueryVectors vq"
    by blast
  from msg out have two: "2 \<le> length vr"
    by (auto simp: prepare_output_def split: if_splits)
  then obtain a b rest where vr: "vr = a # b # rest"
    by (auto simp: numeral_2_eq_2 Suc_le_length_iff)
  let ?strip = "\<lambda>r. \<lparr>e_doc_id = e_doc_id r, e_links = e_links r,
                      e_hybrid_score = e_hybrid_score r, e_summary = None\<rparr>"
  have res: "results out = Some [?strip a, ?strip b]"
    using out vr by (simp add: prepare_output_def Let_def)
  show ?thesis
  proof (cases "infer_persona q = Leadership \<and> length (filter raw_leans_leadership vectors) = 1")
    case True
    then have p: "infer_persona q = Leadership"
      and one: "length (filter raw_leans_leadership vectors) = 1" by simp_all
    from scf p have "score_cluster_filter Leadership (all_keywords (str_lower q)) vectors = Inr vr"
      by simp
    from scf_backfill [OF this one vr]
    obtain v1 v2 where "v1 \<in> set vectors" "v2 \<in> set vectors" "raw_leans_leadership v1"
      "\<not> raw_leans_leadership v2" "v_key v1 = Some (e_doc_id a)" "v_key v2 = Some (e_doc_id b)"
      by blast
    with p one last two qv have
      "infer_persona q = Leadership
       \<and> (\<exists>vq vectors v1 v2. last sent = QueryVectors vq
             \<and> query_vectors sv vq = Returns (Some vectors)
             \<and> length (filter raw_leans_leadership vectors) = 1
             \<and> v1 \<in> set vectors \<and> raw_leans_leadership v1
             \<and> v_key v1 = Some (e_doc_id (?strip a))
             \<and> v2 \<in> set vectors \<and> \<not> raw_leans_leadership v2
             \<and> v_key v2 = Some (e_doc_id (?strip b)))"
      by (intro conjI exI [of _ vq] exI [of _ vectors] exI [of _ v1] exI [of _ v2]) simp_all
    with res show ?thesis by blast
  next
    case False
    from scf_desc [OF scf False] vr have "e_hybrid_score b \<le> e_hybrid_score a" by simp
    with res show ?thesis by simp
  qed
qed

subsection \<open>The example passes, evaluated\<close>

lemma persona_ciso: "infer_persona ''ciso'' = Leadership"
  by code_simp

lemma persona_sdk: "infer_persona ''sdk'' = Technical"
  by code_simp

lemma keywords_ciso:
  "all_keywords (str_lower ''ciso'') =
     [''ciso'', ''chief information security officer'', ''security officer'']"
  by code_simp

lemma keywords_sdk: "all_keywords (str_lower ''sdk'') = [''sdk'']"
  by code_simp

lemma scf_two_ciso:
  "score_cluster_filter Leadership
     [''ciso'', ''chief information security officer'', ''security officer'']
     [ex_leader, ex_tech] =
   Inr [ex_entry ''L1'' [(''deck_link'', ''http://d1'')] (3602879701896397 / 72057594037927936),
        ex_entry ''T1'' [(''content_link'', ''http://c2'')] (3602879701896397 / 4503599627370496)]"
  by code_simp

lemma scf_two_sdk:
  "score_cluster_filter Technical [''sdk''] [ex_leader, ex_tech] =
   Inr [ex_entry ''T1'' [(''content_link'', ''http://c2'')] (5854679515581645 / 9007199254740992),
        ex_entry ''L1'' [(''deck_link'', ''http://d1'')] 0]"
  by code_simp

lemma scf_one_ciso:
  "score_cluster_filter Leadership
     [''ciso'', ''chief information security officer'', ''security officer'']
     [ex_leader] =
   Inr [ex_entry ''L1'' [(''deck_link'', ''http://d1'')] (3602879701896397 / 72057594037927936)]"
  by code_simp

subsection \<open>The requests of a run\<close>

lemma search_transcripts_sent:
  "snd (search_transcripts sv q) =
     (case create_clients sv of
        Raises e \<Rightarrow> []
      | Returns u \<Rightarrow>
          (case fst (initial_pass sv q) of
             Inr (Inr (vq, vr)) \<Rightarrow> snd (initial_pass sv q) @ snd (retry_pass sv q vq vr)
           | _ \<Rightarrow> snd (initial_pass sv q)))"
  by (auto simp: search_transcripts_def try_block_def
           split: outcome.splits exn.splits prod.splits sum.splits)

lemma vector_queries_simps [simp]:
  "vector_queries [] = []"
  "vector_queries (InvokeModel q # rs) = vector_queries rs"
  "vector_queries (QueryVectors vq # rs) = vq # vector_queries rs"
  "vector_queries (xs @ ys) = vector_queries xs @ vector_queries ys"
  by (simp_all add: vector_queries_def)

lemma search_transcripts_value:
  "fst (search_transcripts sv q) =
     (case create_clients sv of
        Raises e \<Rightarrow>
          (case e of
             ClientError m \<Rightarrow> Returned (message_envelope (''ClientError: '' @ str_of_exn e))
           | _ \<Rightarrow> Propagated e)
      | Returns u \<Rightarrow>
          (case fst (initial_pass sv q) of
             Inl e \<Rightarrow> Returned (handle_exception e)
           | Inr (Inl out) \<Rightarrow> Returned out
           | Inr (Inr (vq, vr)) \<Rightarrow>
               (case fst (retry_pass sv q vq vr) of
                  Inl e \<Rightarrow> Returned (handle_exception e)
                | Inr vr' \<Rightarrow> Returned (prepare_output vr'))))"
  by (auto simp: search_transcripts_def try_block_def
           split: outcome.splits exn.splits prod.splits sum.splits)

text \<open>
  Claim C5. A run sends no vector query, one with \<^verbatim>\<open>topK = 10\<close>, or that one followed by
  one with \<^verbatim>\<open>topK = 15\<close>, and never a third. The second query is sent exactly when the
  first pass reaches the link filter with fewer than two valid results, and it is the first
  query with \<^verbatim>\<open>topK\<close> set to 15.
\<close>

theorem at_most_one_retry:
  "map topK (vector_queries (snd (search_transcripts sv q))) \<in> {[], [10], [10, 15]}
   \<and> (map topK (vector_queries (snd (search_transcripts sv q))) = [10, 15]
        \<longleftrightarrow> (\<exists>vr. first_valid_results sv q = Some vr \<and> length vr < 2))
   \<and> (\<forall>vq vq'. vector_queries (snd (search_transcripts sv q)) = [vq, vq']
        \<longrightarrow> vq' = vq\<lparr>topK := 15\<rparr>)"
proof (cases "\<exists>u vq vr. create_clients sv = Returns u \<and> fst (initial_pass sv q) = Inr (Inr (vq, vr))")
  case True
  then obtain u vq vr where cc: "create_clients sv = Returns u"
    and ip: "fst (initial_pass sv q) = Inr (Inr (vq, vr))" by blast
  then have "initial_pass sv q = (Inr (Inr (vq, vr)), snd (initial_pass sv q))"
    by (metis prod.collapse)
  from initial_pass_continue [OF this]
  obtain emb where vq: "vq = \<lparr>queryVector = emb, topK = 10\<rparr>"
    and s1: "snd (initial_pass sv q) = [InvokeModel q, QueryVectors vq]"
    by blast
  have fvr: "first_valid_results sv q = Some vr"
    using cc ip by (simp add: first_valid_results_def)
  have sent: "vector_queries (snd (search_transcripts sv q))
                = vq # vector_queries (snd (retry_pass sv q vq vr))"
    using cc ip s1 by (simp add: search_transcripts_sent)
  show ?thesis
  proof (cases "length vr < 2")
    case True
    with sent have "vector_queries (snd (search_transcripts sv q)) = [vq, vq\<lparr>topK := 15\<rparr>]"
      by (simp add: retry_pass_retry(1))
    with True fvr vq show ?thesis by simp
  next
    case False
    then have "retry_pass sv q vq vr = (Inr vr, [])" by (simp add: retry_pass_no_retry)
    with sent have "vector_queries (snd (search_transcripts sv q)) = [vq]" by simp
    with False fvr vq show ?thesis by simp
  qed
next
  case False
  then have fvr: "first_valid_results sv q = None"
    by (auto simp: first_valid_results_def split: outcome.splits sum.splits)
  from False have "vector_queries (snd (search_transcripts sv q)) = []
      \<or> vector_queries (snd (search_transcripts sv q)) = vector_queries (snd (initial_pass sv q))"
    by (auto simp: search_transcripts_sent split: outcome.splits sum.splits)
  with initial_pass_sent [of sv q]
  have "vector_queries (snd (search_transcripts sv q)) = []
      \<or> (\<exists>emb. vector_queries (snd (search_transcripts sv q)) = [\<lparr>queryVector = emb, topK = 10\<rparr>])"
    by auto
  with fvr show ?thesis by auto
qed

subsection \<open>An empty retry\<close>

text \<open>
  Claim C10. When the first pass leaves fewer than two valid results and the retried query
  returns an empty or absent vectors list, the function does not return the
  \<^verbatim>\<open>NO_RELEVANT_OUTPUT\<close> message: it returns the insufficient-results envelope with the
  valid results of the first pass, unchanged.
\<close>

theorem empty_retry_keeps_first_results:
  assumes "first_valid_results sv q = Some vr" "length vr < 2"
    and "invoke_model sv q = Returns (Some emb)"
    and "query_vectors sv \<lparr>queryVector = emb, topK = 15\<rparr> = Returns None
         \<or> query_vectors sv \<lparr>queryVector = emb, topK = 15\<rparr> = Returns (Some [])"
  shows "fst (search_transcripts sv q) =
           Returned \<lparr>message = Some (''ERROR: Found only '' @ str_of_nat (length vr) @
                                      '' video(s) with valid links; at least 2 required''),
                     results = Some vr,
                     final_recommendation = Some insufficient_text\<rparr>
         \<and> fst (search_transcripts sv q) \<noteq> Returned no_relevant_output
         \<and> map topK (vector_queries (snd (search_transcripts sv q))) = [10, 15]"
proof -
  from assms(1) obtain u vq where cc: "create_clients sv = Returns u"
    and ip: "fst (initial_pass sv q) = Inr (Inr (vq, vr))"
    by (auto simp: first_valid_results_def split: outcome.splits sum.splits)
  then have "initial_pass sv q = (Inr (Inr (vq, vr)), snd (initial_pass sv q))"
    by (metis prod.collapse)
  from initial_pass_continue [OF this] assms(3)
  have vq: "vq = \<lparr>queryVector = emb, topK = 10\<rparr>"
    and s1: "snd (initial_pass sv q) = [InvokeModel q, QueryVectors vq]"
    by auto
  from vq have vq': "vq\<lparr>topK := 15\<rparr> = \<lparr>queryVector = emb, topK = 15\<rparr>" by simp
  have "fst (retry_pass sv q vq vr) = Inr vr"
    using assms(4) by (auto simp: retry_pass_retry(2) [OF assms(2)] vq')
  then have out: "fst (search_transcripts sv q) = Returned (prepare_output vr)"
    using cc ip by (simp add: search_transcripts_value)
  have sent: "map topK (vector_queries (snd (search_transcripts sv q))) = [10, 15]"
    using cc ip s1 vq by (simp add: search_transcripts_sent retry_pass_retry(1) [OF assms(2)])
  from out assms(2) sent show ?thesis
    by (simp add: prepare_output_def no_relevant_output_def message_envelope_def)
qed

subsection \<open>The output floor\<close>

lemma final_some:
  "final_valid_results sv q = Some vr \<Longrightarrow> fst (search_transcripts sv q) = Returned (prepare_output vr)"
  by (auto simp: final_valid_results_def search_transcripts_value
           split: outcome.splits sum.splits)

lemma initial_pass_return_fst:
  "fst (initial_pass sv q) = Inr (Inl out) \<Longrightarrow> out = no_relevant_output"
  by (metis initial_pass_return prod.collapse)

lemma handle_exception_message: "\<exists>m. handle_exception e = message_envelope m"
  by (cases e) (auto simp: handle_exception_def)

lemma final_none:
  assumes "final_valid_results sv q = None" "fst (search_transcripts sv q) = Returned out"
  shows "message out \<noteq> None \<and> results out = None \<and> final_recommendation out = None"
proof -
  have "\<exists>m. out = message_envelope m"
  proof (cases "create_clients sv")
    case (Raises e)
    with assms(2) show ?thesis
      by (cases e) (auto simp: search_transcripts_value)
  next
    case (Returns u)
    show ?thesis
    proof (cases "fst (initial_pass sv q)")
      case (Inl e)
      with Returns assms(2) have "out = handle_exception e"
        by (simp add: search_transcripts_value)
      then show ?thesis using handle_exception_message by simp
    next
      case (Inr x)
      show ?thesis
      proof (cases x)
        case (Inl early)
        with Inr Returns assms(2) have "out = early" by (simp add: search_transcripts_value)
        moreover from Inl Inr have "early = no_relevant_output"
          by (simp add: initial_pass_return_fst)
        ultimately show ?thesis by (auto simp: no_relevant_output_def)
      next
        case (Inr p)
        obtain vq vr where p: "p = (vq, vr)" by (cases p)
        show ?thesis
        proof (cases "fst (retry_pass sv q vq vr)")
          case (Inl e)
          with \<open>x = Inr p\<close> \<open>fst (initial_pass sv q) = Inr x\<close> p Returns assms(2)
          have "out = handle_exception e"
            by (simp add: search_transcripts_value)
          then show ?thesis using handle_exception_message by simp
        next
          case (Inr vr')
          with \<open>x = Inr p\<close> \<open>fst (initial_pass sv q) = Inr x\<close> p Returns assms(1)
          show ?thesis by (simp add: final_valid_results_def)
        qed
      qed
    qed
  qed
  then show ?thesis by (auto simp: message_envelope_def)
qed

text \<open>
  Claim C1, as the code has it. Whenever the function returns, the envelope is a success
  envelope exactly when the run reaches the output step with two or more valid results, and
  a success envelope has exactly two results. Every other envelope has a message. When the
  run reached the output step, it holds the fewer than two valid results and the fixed
  recommendation text; when the run ended before (no embedding, no vectors, or an exception
  handled), it holds the message alone, with no results and no recommendation.
\<close>

theorem output_floor:
  assumes "fst (search_transcripts sv q) = Returned out"
  shows "(is_success out \<longleftrightarrow> (\<exists>vr. final_valid_results sv q = Some vr \<and> 2 \<le> length vr))
       \<and> (is_success out \<longrightarrow> (\<exists>r1 r2. results out = Some [r1, r2]))
       \<and> (\<not> is_success out \<longrightarrow>
            message out \<noteq> None
            \<and> (case final_valid_results sv q of
                  None \<Rightarrow> results out = None \<and> final_recommendation out = None
                | Some vr \<Rightarrow> length vr < 2 \<and> results out = Some vr
                            \<and> final_recommendation out = Some insufficient_text))"
proof (cases "final_valid_results sv q")
  case None
  from final_none [OF None assms] show ?thesis
    using None by (simp add: is_success_def)
next
  case (Some vr)
  with assms have out: "out = prepare_output vr" by (simp add: final_some)
  show ?thesis
  proof (cases "length vr < 2")
    case True
    with out Some show ?thesis by (simp add: prepare_output_def is_success_def)
  next
    case False
    then obtain a b rest where "vr = a # b # rest"
      by (auto simp: not_less numeral_2_eq_2 Suc_le_length_iff)
    with out Some show ?thesis by (simp add: prepare_output_def is_success_def Let_def)
  qed
qed

text \<open>
  Claim C3 at its failing input. When the construction of a client raises an exception
  that is not a \<^verbatim>\<open>ClientError\<close>, no handler catches it: the call returns no envelope and
  the exception reaches the caller.
\<close>

theorem construction_failure_escapes:
  "create_clients ex_no_region = Raises (OtherException ''You must specify a region.'')
   \<and> search_transcripts ex_no_region q = (Propagated (OtherException ''You must specify a region.''), [])"
  by (simp add: search_transcripts_def ex_no_region_def)

text \<open>Once the clients are built, every run returns an envelope.\<close>

lemma clients_built_returns:
  "create_clients sv = Returns u \<Longrightarrow> \<exists>out. fst (search_transcripts sv q) = Returned out"
  by (auto simp: search_transcripts_value split: sum.splits prod.splits)

subsection \<open>The example runs\<close>

lemma run_two_ciso:
  "search_transcripts ex_two ''ciso'' =
     (Returned (prepare_output
        [ex_entry ''L1'' [(''deck_link'', ''http://d1'')] (3602879701896397 / 72057594037927936),
         ex_entry ''T1'' [(''content_link'', ''http://c2'')] (3602879701896397 / 4503599627370496)]),
      [InvokeModel ''ciso'', QueryVectors \<lparr>queryVector = [1/2, 1/4], topK = 10\<rparr>])"
  by (simp add: Let_def search_transcripts_def try_block_def initial_pass_def retry_pass_def
        ex_two_def ex_services_def persona_ciso keywords_ciso scf_two_ciso)

lemma run_two_sdk:
  "search_transcripts ex_two ''sdk'' =
     (Returned (prepare_output
        [ex_entry ''T1'' [(''content_link'', ''http://c2'')] (5854679515581645 / 9007199254740992),
         ex_entry ''L1'' [(''deck_link'', ''http://d1'')] 0]),
      [InvokeModel ''sdk'', QueryVectors \<lparr>queryVector = [1/2, 1/4], topK = 10\<rparr>])"
  by (simp add: Let_def search_transcripts_def try_block_def initial_pass_def retry_pass_def
        ex_two_def ex_services_def persona_sdk keywords_sdk scf_two_sdk)

lemma first_retry_empty:
  "first_valid_results ex_retry_empty ''ciso'' =
     Some [ex_entry ''L1'' [(''deck_link'', ''http://d1'')] (3602879701896397 / 72057594037927936)]"
  by (simp add: Let_def first_valid_results_def initial_pass_def
        ex_retry_empty_def ex_services_def persona_ciso keywords_ciso scf_one_ciso)

lemma final_two_sdk:
  "final_valid_results ex_two ''sdk'' =
     Some [ex_entry ''T1'' [(''content_link'', ''http://c2'')] (5854679515581645 / 9007199254740992),
           ex_entry ''L1'' [(''deck_link'', ''http://d1'')] 0]"
  by (simp add: Let_def final_valid_results_def initial_pass_def retry_pass_def
        ex_two_def ex_services_def persona_sdk keywords_sdk scf_two_sdk)

lemma run_no_vectors:
  "search_transcripts ex_no_vectors ''ciso'' =
     (Returned no_relevant_output,
      [InvokeModel ''ciso'', QueryVectors \<lparr>queryVector = [1/2, 1/4], topK = 10\<rparr>])"
  by (simp add: Let_def search_transcripts_def try_block_def initial_pass_def
        ex_no_vectors_def ex_services_def)

lemma final_no_vectors: "final_valid_results ex_no_vectors ''ciso'' = None"
  by (simp add: Let_def final_valid_results_def initial_pass_def ex_no_vectors_def ex_services_def)

lemma retry_empty_services:
  "invoke_model ex_retry_empty ''ciso'' = Returns (Some [1/2, 1/4])"
  "query_vectors ex_retry_empty \<lparr>queryVector = [1/2, 1/4], topK = 15\<rparr> = Returns None"
  by (simp_all add: ex_retry_empty_def ex_services_def)

lemma run_retry_empty:
  "search_transcripts ex_retry_empty ''ciso'' =
     (Returned (prepare_output
        [ex_entry ''L1'' [(''deck_link'', ''http://d1'')] (3602879701896397 / 72057594037927936)]),
      [InvokeModel ''ciso'', QueryVectors \<lparr>queryVector = [1/2, 1/4], topK = 10\<rparr>,
       QueryVectors \<lparr>queryVector = [1/2, 1/4], topK = 15\<rparr>])"
  by (simp add: Let_def search_transcripts_def try_block_def initial_pass_def retry_pass_def
        ex_retry_empty_def ex_services_def persona_ciso keywords_ciso scf_one_ciso)

lemma final_retry_empty:
  "final_valid_results ex_retry_empty ''ciso'' =
     Some [ex_entry ''L1'' [(''deck_link'', ''http://d1'')] (3602879701896397 / 72057594037927936)]"
  by (simp add: Let_def final_valid_results_def initial_pass_def retry_pass_def
        ex_retry_empty_def ex_services_def persona_ciso keywords_ciso scf_one_ciso)

lemma unlinked_has_no_link: "no_usable_link (metadata ex_unlinked)"
  by code_simp

theorem output_floor_witness:
  "fst (search_transcripts ex_two ''sdk'') =
     Returned (prepare_output
       [ex_entry ''T1'' [(''content_link'', ''http://c2'')] (5854679515581645 / 9007199254740992),
        ex_entry ''L1'' [(''deck_link'', ''http://d1'')] 0])
   \<and> is_success (prepare_output
       [ex_entry ''T1'' [(''content_link'', ''http://c2'')] (5854679515581645 / 9007199254740992),
        ex_entry ''L1'' [(''deck_link'', ''http://d1'')] 0])
   \<and> fst (search_transcripts ex_retry_empty ''ciso'') =
     Returned (prepare_output
       [ex_entry ''L1'' [(''deck_link'', ''http://d1'')] (3602879701896397 / 72057594037927936)])
   \<and> \<not> is_success (prepare_output
       [ex_entry ''L1'' [(''deck_link'', ''http://d1'')] (3602879701896397 / 72057594037927936)])
   \<and> results (prepare_output
       [ex_entry ''L1'' [(''deck_link'', ''http://d1'')] (3602879701896397 / 72057594037927936)])
       = Some [ex_entry ''L1'' [(''deck_link'', ''http://d1'')] (3602879701896397 / 72057594037927936)]
   \<and> final_recommendation (prepare_output
       [ex_entry ''L1'' [(''deck_link'', ''http://d1'')] (3602879701896397 / 72057594037927936)])
       = Some insufficient_text"
proof -
  have a: "fst (search_transcripts ex_two ''sdk'') =
     Returned (prepare_output
       [ex_entry ''T1'' [(''content_link'', ''http://c2'')] (5854679515581645 / 9007199254740992),
        ex_entry ''L1'' [(''deck_link'', ''http://d1'')] 0])"
    by (simp add: run_two_sdk)
  have b: "fst (search_transcripts ex_retry_empty ''ciso'') =
     Returned (prepare_output
       [ex_entry ''L1'' [(''deck_link'', ''http://d1'')] (3602879701896397 / 72057594037927936)])"
    by (simp add: run_retry_empty)
  show ?thesis
    using a b output_floor [OF a] output_floor [OF b] final_two_sdk final_retry_empty
    by simp
qed

text \<open>
  With an empty first response the envelope is the message alone: no results list and no
  recommendation text.
\<close>

theorem output_floor_counterexample:
  "fst (search_transcripts ex_no_vectors ''ciso'') = Returned no_relevant_output
   \<and> final_valid_results ex_no_vectors ''ciso'' = None
   \<and> \<not> is_success no_relevant_output
   \<and> results no_relevant_output = None
   \<and> final_recommendation no_relevant_output \<noteq> Some insufficient_text"
  by (simp add: run_no_vectors final_no_vectors is_success_def)

theorem success_two_ordered_witness:
  "search_transcripts ex_two ''sdk'' =
     (Returned (prepare_output
        [ex_entry ''T1'' [(''content_link'', ''http://c2'')] (5854679515581645 / 9007199254740992),
         ex_entry ''L1'' [(''deck_link'', ''http://d1'')] 0]),
      [InvokeModel ''sdk'', QueryVectors \<lparr>queryVector = [1/2, 1/4], topK = 10\<rparr>])
   \<and> is_success (prepare_output
        [ex_entry ''T1'' [(''content_link'', ''http://c2'')] (5854679515581645 / 9007199254740992),
         ex_entry ''L1'' [(''deck_link'', ''http://d1'')] 0])
   \<and> infer_persona ''sdk'' = Technical
   \<and> (\<exists>r1 r2. results (prepare_output
        [ex_entry ''T1'' [(''content_link'', ''http://c2'')] (5854679515581645 / 9007199254740992),
         ex_entry ''L1'' [(''deck_link'', ''http://d1'')] 0]) = Some [r1, r2]
        \<and> e_hybrid_score r2 \<le> e_hybrid_score r1)"
proof -
  let ?out = "prepare_output
        [ex_entry ''T1'' [(''content_link'', ''http://c2'')] (5854679515581645 / 9007199254740992),
         ex_entry ''L1'' [(''deck_link'', ''http://d1'')] 0]"
  have succ: "is_success ?out"
    by (simp add: is_success_def prepare_output_def)
  show ?thesis
    using success_two_ordered [OF run_two_sdk succ] run_two_sdk succ persona_sdk
    by auto
qed

text \<open>
  In the backfill case the two results can be in ascending order: the query \<open>''ciso''\<close> has
  the leadership persona, the only leadership-leaning chunk scores 0.05 and the technical
  backfill behind it scores 0.8.
\<close>

theorem success_order_counterexample:
  "fst (search_transcripts ex_two ''ciso'') =
     Returned (prepare_output
        [ex_entry ''L1'' [(''deck_link'', ''http://d1'')] (3602879701896397 / 72057594037927936),
         ex_entry ''T1'' [(''content_link'', ''http://c2'')] (3602879701896397 / 4503599627370496)])
   \<and> is_success (prepare_output
        [ex_entry ''L1'' [(''deck_link'', ''http://d1'')] (3602879701896397 / 72057594037927936),
         ex_entry ''T1'' [(''content_link'', ''http://c2'')] (3602879701896397 / 4503599627370496)])
   \<and> map e_doc_id (the (results (prepare_output
        [ex_entry ''L1'' [(''deck_link'', ''http://d1'')] (3602879701896397 / 72057594037927936),
         ex_entry ''T1'' [(''content_link'', ''http://c2'')] (3602879701896397 / 4503599627370496)])))
      = [''L1'', ''T1'']
   \<and> map e_hybrid_score (the (results (prepare_output
        [ex_entry ''L1'' [(''deck_link'', ''http://d1'')] (3602879701896397 / 72057594037927936),
         ex_entry ''T1'' [(''content_link'', ''http://c2'')] (3602879701896397 / 4503599627370496)])))
      = [3602879701896397 / 72057594037927936, 3602879701896397 / 4503599627370496]
   \<and> (3602879701896397 / 72057594037927936 :: rat) < 3602879701896397 / 4503599627370496"
  by (simp add: run_two_ciso is_success_def prepare_output_def ex_entry_def)

theorem at_most_one_retry_witness:
  "first_valid_results ex_retry_empty ''ciso'' =
     Some [ex_entry ''L1'' [(''deck_link'', ''http://d1'')] (3602879701896397 / 72057594037927936)]
   \<and> length [ex_entry ''L1'' [(''deck_link'', ''http://d1'')] (3602879701896397 / 72057594037927936)] < 2
   \<and> map topK (vector_queries (snd (search_transcripts ex_retry_empty ''ciso''))) = [10, 15]
   \<and> vector_queries (snd (search_transcripts ex_retry_empty ''ciso'')) =
       [\<lparr>queryVector = [1/2, 1/4], topK = 10\<rparr>, \<lparr>queryVector = [1/2, 1/4], topK = 15\<rparr>]
   \<and> \<lparr>queryVector = [1/2, 1/4], topK = 15\<rparr> = \<lparr>queryVector = [1/2, 1/4], topK = 10\<rparr>\<lparr>topK := 15\<rparr>"
proof -
  have vqs: "vector_queries (snd (search_transcripts ex_retry_empty ''ciso'')) =
       [\<lparr>queryVector = [1/2, 1/4], topK = 10\<rparr>, \<lparr>queryVector = [1/2, 1/4], topK = 15\<rparr>]"
    by (simp add: run_retry_empty vector_queries_def)
  show ?thesis
    using at_most_one_retry [of ex_retry_empty "''ciso''"] first_retry_empty vqs
    by simp
qed

theorem link_filter_witness:
  "no_usable_link (metadata ex_unlinked)
   \<and> collect_valid [ex_unlinked] = []
   \<and> search_transcripts ex_two ''sdk'' =
     (Returned (prepare_output
        [ex_entry ''T1'' [(''content_link'', ''http://c2'')] (5854679515581645 / 9007199254740992),
         ex_entry ''L1'' [(''deck_link'', ''http://d1'')] 0]),
      [InvokeModel ''sdk'', QueryVectors \<lparr>queryVector = [1/2, 1/4], topK = 10\<rparr>])
   \<and> results (prepare_output
        [ex_entry ''T1'' [(''content_link'', ''http://c2'')] (5854679515581645 / 9007199254740992),
         ex_entry ''L1'' [(''deck_link'', ''http://d1'')] 0]) =
       Some [\<lparr>e_doc_id = ''T1'', e_links = [(''content_link'', ''http://c2'')],
               e_hybrid_score = 5854679515581645 / 9007199254740992, e_summary = None\<rparr>,
             \<lparr>e_doc_id = ''L1'', e_links = [(''deck_link'', ''http://d1'')],
               e_hybrid_score = 0, e_summary = None\<rparr>]
   \<and> (\<exists>vq vectors v.
          QueryVectors vq \<in> set [InvokeModel ''sdk'', QueryVectors \<lparr>queryVector = [1/2, 1/4], topK = 10\<rparr>]
          \<and> query_vectors ex_two vq = Returns (Some vectors)
          \<and> v \<in> set vectors \<and> v_key v = Some ''T1''
          \<and> \<not> no_usable_link (get_metadata v)
          \<and> [(''content_link'', ''http://c2'')] = extract_links (get_metadata v))"
proof -
  let ?out = "prepare_output
        [ex_entry ''T1'' [(''content_link'', ''http://c2'')] (5854679515581645 / 9007199254740992),
         ex_entry ''L1'' [(''deck_link'', ''http://d1'')] 0]"
  let ?r = "\<lparr>e_doc_id = ''T1'', e_links = [(''content_link'', ''http://c2'')],
               e_hybrid_score = 5854679515581645 / 9007199254740992, e_summary = None\<rparr>"
  let ?rs = "[?r, \<lparr>e_doc_id = ''L1'', e_links = [(''deck_link'', ''http://d1'')],
               e_hybrid_score = 0, e_summary = None\<rparr>]"
  have res: "results ?out = Some ?rs"
    by (simp add: prepare_output_def ex_entry_def)
  have r: "?r \<in> set ?rs" by simp
  have one: "collect_valid [ex_unlinked] = []"
    using link_filter [of ex_unlinked "[]" "[]"] unlinked_has_no_link by simp
  from link_filter [of ex_unlinked "[]" "[]" ex_two "''sdk''" ?out
        "[InvokeModel ''sdk'', QueryVectors \<lparr>queryVector = [1/2, 1/4], topK = 10\<rparr>]" ?rs ?r,
        THEN conjunct2, THEN mp, OF conjI [OF run_two_sdk conjI [OF res r]]]
  obtain vq vectors v where
    "QueryVectors vq \<in> set [InvokeModel ''sdk'', QueryVectors \<lparr>queryVector = [1/2, 1/4], topK = 10\<rparr>]"
    "query_vectors ex_two vq = Returns (Some vectors)" "v \<in> set vectors"
    "v_key v = Some (e_doc_id ?r)" "\<not> no_usable_link (get_metadata v)"
    "e_links ?r = extract_links (get_metadata v)"
    by (elim exE conjE) (rule that; assumption)
  then have two: "\<exists>vq vectors v.
          QueryVectors vq \<in> set [InvokeModel ''sdk'', QueryVectors \<lparr>queryVector = [1/2, 1/4], topK = 10\<rparr>]
          \<and> query_vectors ex_two vq = Returns (Some vectors)
          \<and> v \<in> set vectors \<and> v_key v = Some ''T1''
          \<and> \<not> no_usable_link (get_metadata v)
          \<and> [(''content_link'', ''http://c2'')] = extract_links (get_metadata v)"
    by (intro exI [of _ vq] exI [of _ vectors] exI [of _ v]) simp
  show ?thesis using unlinked_has_no_link one run_two_sdk res two by simp
qed

theorem empty_retry_keeps_first_results_witness:
  "first_valid_results ex_retry_empty ''ciso'' =
     Some [ex_entry ''L1'' [(''deck_link'', ''http://d1'')] (3602879701896397 / 72057594037927936)]
   \<and> length [ex_entry ''L1'' [(''deck_link'', ''http://d1'')] (3602879701896397 / 72057594037927936)] < 2
   \<and> invoke_model ex_retry_empty ''ciso'' = Returns (Some [1/2, 1/4])
   \<and> query_vectors ex_retry_empty \<lparr>queryVector = [1/2, 1/4], topK = 15\<rparr> = Returns None
   \<and> fst (search_transcripts ex_retry_empty ''ciso'') =
       Returned \<lparr>message = Some ''ERROR: Found only 1 video(s) with valid links; at least 2 required'',
                 results = Some [ex_entry ''L1'' [(''deck_link'', ''http://d1'')]
                                   (3602879701896397 / 72057594037927936)],
                 final_recommendation = Some insufficient_text\<rparr>
   \<and> fst (search_transcripts ex_retry_empty ''ciso'') \<noteq> Returned no_relevant_output"
proof -
  have short: "length [ex_entry ''L1'' [(''deck_link'', ''http://d1'')]
                         (3602879701896397 / 72057594037927936)] < 2"
    by simp
  have one: "str_of_nat (Suc 0) = ''1''"
    by (simp add: str_of_nat.simps digit_char_def)
  show ?thesis
    using empty_retry_keeps_first_results
        [OF first_retry_empty short retry_empty_services(1) disjI1 [OF retry_empty_services(2)]]
      first_retry_empty retry_empty_services one
    by (simp add: no_relevant_output_def message_envelope_def)
qed

end
